theory Spec2Isabelle
  imports Main "HOL-Library.Word"
begin

section \<open>libvbs: a scattered recording presented as one file\<close>

text \<open>
  A shallow embedding of \<^verbatim>\<open>src/evlbi5a/libvbs.cc\<close>. Every function of the source is a
  HOL function of the same name; what the C++ does to the process (the table of opened
  recordings, the operating system's descriptors) is passed in and returned explicitly.

  Conventions.
  \<^item> \<^verbatim>\<open>int\<close>, \<^verbatim>\<open>off_t\<close> and \<^verbatim>\<open>ssize_t\<close> values are HOL integers. Signed overflow is
    undefined in C++ and is not part of the model; the one conversion that wraps in practice,
    \<^verbatim>\<open>(off_t)nr\<close> of a \<^verbatim>\<open>size_t\<close>, is written out.
  \<^item> A call that sets \<^verbatim>\<open>errno = e\<close> and returns \<^verbatim>\<open>-1\<close> is the outcome \<open>Fail e\<close>; a thrown
    C++ exception is the outcome \<open>Throw x\<close>; a normal return of \<open>v\<close> is \<open>Return v\<close>.
  \<^item> A \<^verbatim>\<open>std::set\<close> or \<^verbatim>\<open>std::map\<close> is the list of its elements in iteration order; an
    iterator is an index into that list, \<^verbatim>\<open>end()\<close> being the length.
  \<^item> A call that may not return to its caller has an \<open>option\<close> for its value, \<open>None\<close>
    where it does not return: a loop that goes on for ever, or the end of the process.
  \<^item> One call of the library is modelled at a time, not calls that overlap in time; the
    threads that \<^verbatim>\<open>mk6_open\<close> starts run as the scheduler has them.
\<close>

subsection \<open>Outcomes\<close>

datatype errno = EINVAL | ENOENT | EBADF | EFAULT

text \<open>The two \<^verbatim>\<open>EZASSERT2\<close> sites of the source differ in their message only.\<close>

datatype assertion = duplicate_insert_for_chunk | found_bogus_stuff_in_write_block_header

datatype exn = vbs_except assertion | thrown_int errno | syscallexception

datatype 'a result = Return 'a | Fail errno | Throw exn

subsection \<open>The operating system\<close>

text \<open>
  The file system maps a path to a regular file (its bytes) or a directory (the names of
  its entries). The descriptor table \<open>fds\<close> holds every open descriptor with the bytes of
  the file it was opened on and its offset. A descriptor opened on a directory has no bytes;
  it is listed in \<open>dirfds\<close> as well, with what \<^verbatim>\<open>lseek(fd, 0, SEEK_END)\<close> returns on it,
  which is the file system's business (\<open>dir_end\<close>, by path; \<open>-1\<close> where the file system
  refuses). \<open>schedule\<close> is what the scheduler is going to choose among the threads of the
  process, see \<^verbatim>\<open>scanMk6Recording\<close>. Only what libvbs calls is modelled: \<^verbatim>\<open>open\<close>
  (read-only), \<^verbatim>\<open>close\<close>, \<^verbatim>\<open>lseek\<close>, \<^verbatim>\<open>read\<close>, \<^verbatim>\<open>lstat\<close>, \<^verbatim>\<open>opendir\<close>.
\<close>

type_synonym byte = "8 word"

datatype node = Regular "byte list" | Directory "string list"

record os_state =
  nodes :: "string \<Rightarrow> node option"
  fds :: "(int \<times> byte list \<times> int) list"
  dirfds :: "(int \<times> int) list"
  dir_end :: "string \<Rightarrow> int"
  schedule :: "nat list"

definition fd_lookup :: "int \<Rightarrow> os_state \<Rightarrow> (byte list \<times> int) option" where
  "fd_lookup fd os = map_of (fds os) fd"

text \<open>
  \<^verbatim>\<open>open(path, O_RDONLY)\<close> returns the lowest descriptor not in use; it opens a
  directory as well as a regular file.
\<close>

definition lowest_free :: "int list \<Rightarrow> int" where
  "lowest_free used =
     (case find (\<lambda>n. n \<notin> set used) (map int [0..<Suc (length used)]) of
        Some n \<Rightarrow> n
      | None \<Rightarrow> int (length used))"

definition os_open :: "string \<Rightarrow> os_state \<Rightarrow> int \<times> os_state" where
  "os_open path os =
     (case nodes os path of
        Some (Regular bytes) \<Rightarrow>
          (let fd = lowest_free (map fst (fds os))
           in (fd, os\<lparr>fds := fds os @ [(fd, bytes, 0)]\<rparr>))
      | Some (Directory entries) \<Rightarrow>
          (let fd = lowest_free (map fst (fds os))
           in (fd, os\<lparr>fds := fds os @ [(fd, [], 0)],
                       dirfds := dirfds os @ [(fd, dir_end os path)]\<rparr>))
      | None \<Rightarrow> (- 1, os))"

definition os_close :: "int \<Rightarrow> os_state \<Rightarrow> os_state" where
  "os_close fd os =
     os\<lparr>fds := filter (\<lambda>e. fst e \<noteq> fd) (fds os), dirfds := filter (\<lambda>e. fst e \<noteq> fd) (dirfds os)\<rparr>"

definition set_offset :: "int \<Rightarrow> int \<Rightarrow> os_state \<Rightarrow> os_state" where
  "set_offset fd pos os =
     os\<lparr>fds := map (\<lambda>e. if fst e = fd then (fd, fst (snd e), pos) else e) (fds os)\<rparr>"

text \<open>
  \<^verbatim>\<open>lseek(fd, pos, SEEK_SET)\<close> and \<^verbatim>\<open>lseek(fd, 0, SEEK_END)\<close>; the latter gives the
  size of a regular file.
\<close>

definition os_lseek_set :: "int \<Rightarrow> int \<Rightarrow> os_state \<Rightarrow> int \<times> os_state" where
  "os_lseek_set fd pos os =
     (case fd_lookup fd os of
        None \<Rightarrow> (- 1, os)
      | Some (bytes, off) \<Rightarrow> if pos < 0 then (- 1, os) else (pos, set_offset fd pos os))"

definition os_lseek_end :: "int \<Rightarrow> os_state \<Rightarrow> int \<times> os_state" where
  "os_lseek_end fd os =
     (case fd_lookup fd os of
        None \<Rightarrow> (- 1, os)
      | Some (bytes, off) \<Rightarrow>
          (case map_of (dirfds os) fd of
             None \<Rightarrow> (int (length bytes), set_offset fd (int (length bytes)) os)
           | Some e \<Rightarrow> if e < 0 then (- 1, os) else (e, set_offset fd e os)))"

text \<open>
  \<^verbatim>\<open>read(fd, buf, n)\<close>: the count returned (\<open>-1\<close> on a descriptor that is not open or
  is open on a directory), the bytes stored in the buffer, and the state with the offset
  advanced. At or past the end of the file it returns 0.
\<close>

definition os_read :: "int \<Rightarrow> nat \<Rightarrow> os_state \<Rightarrow> int \<times> byte list \<times> os_state" where
  "os_read fd n os =
     (case fd_lookup fd os of
        None \<Rightarrow> (- 1, [], os)
      | Some (bytes, off) \<Rightarrow>
          if fd \<in> set (map fst (dirfds os)) then (- 1, [], os)
          else (let got = take n (drop (nat off) bytes)
                in (int (length got), got, set_offset fd (off + int (length got)) os)))"

subsection \<open>Strings\<close>

text \<open>\<^verbatim>\<open>std::string::find(char)\<close> and \<^verbatim>\<open>find_last_of(char)\<close>; \<open>None\<close> is \<^verbatim>\<open>npos\<close>.\<close>

fun string_find :: "string \<Rightarrow> char \<Rightarrow> nat option" where
  "string_find [] c = None"
| "string_find (x # xs) c = (if x = c then Some 0 else map_option Suc (string_find xs c))"

definition find_last_of :: "string \<Rightarrow> char \<Rightarrow> nat option" where
  "find_last_of s c = map_option (\<lambda>i. length s - 1 - i) (string_find (rev s) c)"

definition backslash :: char where
  "backslash = CHR 0x5C"

definition alphanum_str :: string where
  "alphanum_str = ''_abcdefghijklmnopqrstuvwxyzABCDEFGHIJKLMNOPQRSTUVWXYZ01234567890''"

text \<open>
  The loop of \<^verbatim>\<open>escape\<close>: \<open>rv\<close> is the output built so far, the second argument what is
  left of the input.
\<close>

fun escape_loop :: "string \<Rightarrow> string \<Rightarrow> string" where
  "escape_loop rv [] = rv"
| "escape_loop rv (p # s) =
     escape_loop ((if string_find alphanum_str p = None then rv @ [backslash] else rv) @ [p]) s"

definition escape :: "string \<Rightarrow> string" where
  "escape s = escape_loop [] s"

text \<open>The character class \<^verbatim>\<open>[A-Za-z0-9_]\<close> of the specification, by character code.\<close>

definition word_char :: "char \<Rightarrow> bool" where
  "word_char c =
     (let n = (of_char c :: nat)
      in (65 \<le> n \<and> n \<le> 90) \<or> (97 \<le> n \<and> n \<le> 122) \<or> (48 \<le> n \<and> n \<le> 57) \<or> n = 95)"

text \<open>The specification's reading of \<^verbatim>\<open>escape\<close>, character by character.\<close>

definition escape_spec :: "string \<Rightarrow> string" where
  "escape_spec s = concat (map (\<lambda>c. if word_char c then [c] else [backslash, c]) s)"

subsection \<open>File chunks\<close>

text \<open>\<^verbatim>\<open>std::numeric_limits<int>::max()\<close>, for a 32-bit \<^verbatim>\<open>int\<close>.\<close>

definition INT_MAX :: int where
  "INT_MAX = 2147483647"

definition invalidFileDescriptor :: int where
  "invalidFileDescriptor = INT_MAX"

record filechunk_type =
  pathToChunk :: string
  chunkSize :: int
  chunkPos :: int
  chunkFd :: int
  chunkOffset :: int
  chunkNumber :: nat

text \<open>
  \<^verbatim>\<open>strtoul(s, 0, 10)\<close> of the C library, for a 64-bit \<^verbatim>\<open>unsigned long\<close>: white space,
  an optional sign, then the decimal digits.
\<close>

definition isdigit :: "char \<Rightarrow> bool" where
  "isdigit c = (48 \<le> (of_char c :: nat) \<and> (of_char c :: nat) \<le> 57)"

definition isspace :: "char \<Rightarrow> bool" where
  "isspace c = ((of_char c :: nat) = 32 \<or> (9 \<le> (of_char c :: nat) \<and> (of_char c :: nat) \<le> 13))"

fun decimal_prefix :: "nat \<Rightarrow> string \<Rightarrow> nat" where
  "decimal_prefix acc [] = acc"
| "decimal_prefix acc (c # cs) =
     (if isdigit c then decimal_prefix (10 * acc + (of_char c - 48)) cs else acc)"

definition strtoul10 :: "string \<Rightarrow> nat" where
  "strtoul10 s =
     (let t = dropWhile isspace s;
          neg = (t \<noteq> [] \<and> hd t = CHR ''-'');
          u = (if t \<noteq> [] \<and> (hd t = CHR ''-'' \<or> hd t = CHR ''+'') then tl t else t);
          v = decimal_prefix 0 u
      in if v > 2 ^ 64 - 1 then 2 ^ 64 - 1
         else if neg then (2 ^ 64 - v) mod 2 ^ 64 else v)"

text \<open>
  The constructor from a path (a FlexBuff chunk): the size is what \<^verbatim>\<open>lseek\<close> to the end
  returns on the opened file, which is then closed; the number is read after the last dot
  and converted to \<^verbatim>\<open>unsigned int\<close>. The \<^verbatim>\<open>errno\<close> of a failed \<^verbatim>\<open>open\<close> is thrown: here
  the path does not exist.
\<close>

definition filechunk_type_path :: "string \<Rightarrow> os_state \<Rightarrow> filechunk_type result \<times> os_state" where
  "filechunk_type_path fnm os =
     (case find_last_of fnm CHR ''.'' of
        None \<Rightarrow> (Throw (thrown_int EINVAL), os)
      | Some dot \<Rightarrow>
          (case os_open fnm os of
             (fd, os1) \<Rightarrow>
               if fd < 0 then (Throw (thrown_int ENOENT), os1)
               else (case os_lseek_end fd os1 of
                       (sz, os2) \<Rightarrow>
                         (Return \<lparr>pathToChunk = fnm, chunkSize = sz, chunkPos = 0,
                                  chunkFd = invalidFileDescriptor, chunkOffset = 0,
                                  chunkNumber = strtoul10 (drop (dot + 1) fnm) mod 2 ^ 32\<rparr>,
                          os_close fd os2))))"

text \<open>The constructor of a Mark6 chunk: number, place in the file, size, descriptor.\<close>

definition filechunk_type_mk6 :: "nat \<Rightarrow> int \<Rightarrow> int \<Rightarrow> int \<Rightarrow> filechunk_type" where
  "filechunk_type_mk6 chunk fpos sz fd =
     \<lparr>pathToChunk = [], chunkSize = sz, chunkPos = fpos, chunkFd = - fd, chunkOffset = 0,
      chunkNumber = chunk\<rparr>"

text \<open>The copy constructor copies the descriptor in the Mark6 case only.\<close>

definition filechunk_type_copy :: "filechunk_type \<Rightarrow> filechunk_type" where
  "filechunk_type_copy other =
     other\<lparr>chunkFd := (if chunkFd other < 0 then chunkFd other else invalidFileDescriptor)\<rparr>"

definition open_chunk :: "filechunk_type \<Rightarrow> os_state \<Rightarrow> int \<times> filechunk_type \<times> os_state" where
  "open_chunk c os =
     (case (if chunkFd c = invalidFileDescriptor
            then (case os_open (pathToChunk c) os of
                    (fd, os1) \<Rightarrow>
                      (c\<lparr>chunkFd := (if fd = - 1 then invalidFileDescriptor else fd)\<rparr>, os1))
            else (c, os)) of
        (c1, os1) \<Rightarrow> ((if chunkFd c1 < 0 then - chunkFd c1 else chunkFd c1), c1, os1))"

definition close_chunk :: "filechunk_type \<Rightarrow> os_state \<Rightarrow> filechunk_type \<times> os_state" where
  "close_chunk c os =
     (if 0 \<le> chunkFd c \<and> chunkFd c \<noteq> invalidFileDescriptor
      then (c\<lparr>chunkFd := invalidFileDescriptor\<rparr>, os_close (chunkFd c) os)
      else (c, os))"

text \<open>The destructor.\<close>

definition filechunk_type_dtor :: "filechunk_type \<Rightarrow> os_state \<Rightarrow> os_state" where
  "filechunk_type_dtor c os =
     (if 0 \<le> chunkFd c \<and> chunkFd c \<noteq> invalidFileDescriptor then os_close (chunkFd c) os else os)"

text \<open>
  \<^verbatim>\<open>filechunks_type\<close> is a \<^verbatim>\<open>std::set\<close> ordered by \<^verbatim>\<open>chunkNumber\<close> alone.
  \<^verbatim>\<open>insert\<close> stores a copy of its argument, or leaves the set alone and answers
  \<open>False\<close> when an element with that number is there already.
\<close>

type_synonym filechunks_type = "filechunk_type list"

fun filechunks_insert :: "filechunk_type \<Rightarrow> filechunks_type \<Rightarrow> filechunks_type \<times> bool" where
  "filechunks_insert c [] = ([filechunk_type_copy c], True)"
| "filechunks_insert c (x # xs) =
     (if chunkNumber c < chunkNumber x then (filechunk_type_copy c # x # xs, True)
      else if chunkNumber x < chunkNumber c
      then (case filechunks_insert c xs of (ys, b) \<Rightarrow> (x # ys, b))
      else (x # xs, False))"

subsection \<open>Open files\<close>

record openfile_type =
  filePointer :: int
  fileSize :: int
  fileChunks :: filechunks_type
  chunkPtr :: nat

text \<open>
  The loop of the constructor: each chunk's offset is the size counted so far. It returns
  the chunks with their offsets and the final size.
\<close>

fun assign_offsets :: "int \<Rightarrow> filechunks_type \<Rightarrow> filechunks_type \<times> int" where
  "assign_offsets sofar [] = ([], sofar)"
| "assign_offsets sofar (c # cs) =
     (case assign_offsets (sofar + chunkSize c) cs of
        (cs1, size1) \<Rightarrow> (c\<lparr>chunkOffset := sofar\<rparr> # cs1, size1))"

definition openfile_type_ctor :: "filechunks_type \<Rightarrow> openfile_type" where
  "openfile_type_ctor fcs =
     (case assign_offsets 0 (map filechunk_type_copy fcs) of
        (cs, size1) \<Rightarrow> \<lparr>filePointer = 0, fileSize = size1, fileChunks = cs, chunkPtr = 0\<rparr>)"

definition openfile_type_copy :: "openfile_type \<Rightarrow> openfile_type" where
  "openfile_type_copy other =
     \<lparr>filePointer = 0, fileSize = fileSize other,
      fileChunks = map filechunk_type_copy (fileChunks other), chunkPtr = 0\<rparr>"

text \<open>\<^verbatim>\<open>chunkPtr->close_chunk()\<close> for an iterator that is not \<^verbatim>\<open>end()\<close>.\<close>

definition close_chunk_at :: "nat \<Rightarrow> openfile_type \<Rightarrow> os_state \<Rightarrow> openfile_type \<times> os_state" where
  "close_chunk_at i opf os =
     (if i < length (fileChunks opf)
      then (case close_chunk (fileChunks opf ! i) os of
              (c, os1) \<Rightarrow> (opf\<lparr>fileChunks := (fileChunks opf)[i := c]\<rparr>, os1))
      else (opf, os))"

text \<open>
  \<^verbatim>\<open>openedfiles_type\<close> is a \<^verbatim>\<open>std::map\<close> from \<^verbatim>\<open>int\<close>: the list of its pairs in key
  order. \<^verbatim>\<open>find\<close> is \<open>map_of\<close>; \<^verbatim>\<open>insert\<close> leaves an existing key alone.
\<close>

type_synonym openedfiles_type = "(int \<times> openfile_type) list"

fun openedfiles_insert :: "int \<Rightarrow> openfile_type \<Rightarrow> openedfiles_type \<Rightarrow> openedfiles_type" where
  "openedfiles_insert k v [] = [(k, v)]"
| "openedfiles_insert k v (e # m) =
     (if k < fst e then (k, v) # e # m
      else if fst e < k then e # openedfiles_insert k v m
      else e # m)"

text \<open>Assignment through the reference \<^verbatim>\<open>fptr->second\<close>, and \<^verbatim>\<open>erase\<close>.\<close>

definition openedfiles_assign :: "int \<Rightarrow> openfile_type \<Rightarrow> openedfiles_type \<Rightarrow> openedfiles_type" where
  "openedfiles_assign k v m = map (\<lambda>e. if fst e = k then (k, v) else e) m"

definition openedfiles_erase :: "int \<Rightarrow> openedfiles_type \<Rightarrow> openedfiles_type" where
  "openedfiles_erase k m = filter (\<lambda>e. fst e \<noteq> k) m"

subsection \<open>vbs\_lseek\<close>

definition SEEK_SET :: int where "SEEK_SET = 0"
definition SEEK_CUR :: int where "SEEK_CUR = 1"
definition SEEK_END :: int where "SEEK_END = 2"

text \<open>
  The \<^verbatim>\<open>while\<close> loop that looks for the new chunk, from \<^verbatim>\<open>begin()\<close>: the number of
  chunks skipped.
\<close>

fun skip_chunks :: "int \<Rightarrow> filechunks_type \<Rightarrow> nat" where
  "skip_chunks newfp [] = 0"
| "skip_chunks newfp (c # cs) =
     (if newfp > chunkOffset c + chunkSize c then Suc (skip_chunks newfp cs) else 0)"

definition vbs_lseek ::
  "int \<Rightarrow> int \<Rightarrow> int \<Rightarrow> openedfiles_type \<Rightarrow> os_state \<Rightarrow> int result \<times> openedfiles_type \<times> os_state" where
  "vbs_lseek fd offset whence openedFiles os =
     (case map_of openedFiles fd of
        None \<Rightarrow> (Fail EBADF, openedFiles, os)
      | Some opf \<Rightarrow>
          (case (if whence = SEEK_SET then Some offset
                 else if whence = SEEK_END then Some (fileSize opf + offset)
                 else if whence = SEEK_CUR then Some (filePointer opf + offset)
                 else None) of
             None \<Rightarrow> (Fail EINVAL, openedFiles, os)
           | Some newfp \<Rightarrow>
               if newfp < 0 then (Fail EINVAL, openedFiles, os)
               else if newfp = filePointer opf then (Return (filePointer opf), openedFiles, os)
               else
                 (let newchunk = skip_chunks newfp (fileChunks opf)
                  in (case (if chunkPtr opf \<noteq> newchunk \<and> chunkPtr opf \<noteq> length (fileChunks opf)
                            then close_chunk_at (chunkPtr opf) opf os else (opf, os)) of
                        (opf1, os1) \<Rightarrow>
                          (Return newfp,
                           openedfiles_assign fd (opf1\<lparr>filePointer := newfp, chunkPtr := newchunk\<rparr>)
                             openedFiles,
                           os1)))))"

subsection \<open>vbs\_read\<close>

datatype ('s, 'r) step = Continue 's | Break 'r

text \<open>The conversion \<^verbatim>\<open>(off_t)nr\<close> of a 64-bit \<^verbatim>\<open>size_t\<close>.\<close>

definition off_t_of_size_t :: "nat \<Rightarrow> int" where
  "off_t_of_size_t n =
     (if n mod 2 ^ 64 < 2 ^ 63 then int (n mod 2 ^ 64) else int (n mod 2 ^ 64) - 2 ^ 64)"

text \<open>
  One pass through the body of the \<^verbatim>\<open>while( nr )\<close> loop, its condition included. The
  state is \<open>(nr, of, bytes stored through bufc, operating system)\<close>.
\<close>

type_synonym read_state = "nat \<times> openfile_type \<times> byte list \<times> os_state"

fun vbs_read_body :: "read_state \<Rightarrow> (read_state, read_state) step" where
  "vbs_read_body (nr, opf, bufc, os) =
     (if nr = 0 then Break (nr, opf, bufc, os)
      else if chunkPtr opf = length (fileChunks opf) then Break (nr, opf, bufc, os)
      else
        (let chunk = fileChunks opf ! chunkPtr opf;
             n2r = min (off_t_of_size_t nr) (chunkOffset chunk + chunkSize chunk - filePointer opf)
         in if n2r \<le> 0
            then (case close_chunk_at (chunkPtr opf) opf os of
                    (opf1, os1) \<Rightarrow> Continue (nr, opf1\<lparr>chunkPtr := chunkPtr opf1 + 1\<rparr>, bufc, os1))
            else (case open_chunk chunk os of
                    (realfd, chunk1, os1) \<Rightarrow>
                      (let opf1 = opf\<lparr>fileChunks := (fileChunks opf)[chunkPtr opf := chunk1]\<rparr>
                       in if realfd = invalidFileDescriptor then Break (nr, opf1, bufc, os1)
                          else (case os_lseek_set realfd
                                       (filePointer opf - chunkOffset chunk + chunkPos chunk) os1 of
                                  (r, os2) \<Rightarrow>
                                    (case os_read realfd (nat n2r) os2 of
                                       (actualread, got, os3) \<Rightarrow>
                                         if actualread < 0 then Break (nr, opf1, bufc, os3)
                                         else Continue
                                                (nr - nat actualread,
                                                 opf1\<lparr>filePointer := filePointer opf1 + actualread\<rparr>,
                                                 bufc @ got, os3)))))))"

text \<open>The loop may run forever: not returning is the value \<open>None\<close>.\<close>

partial_function (option) vbs_read_loop :: "read_state \<Rightarrow> read_state option" where
  "vbs_read_loop s =
     (case vbs_read_body s of Continue s1 \<Rightarrow> vbs_read_loop s1 | Break s1 \<Rightarrow> Some s1)"

text \<open>
  \<^verbatim>\<open>vbs_read(fd, buf, count)\<close>: \<open>buf\<close> is the address (0 is the null pointer); the
  result holds the return value and the bytes stored at \<open>buf\<close>.
\<close>

definition vbs_read ::
  "int \<Rightarrow> nat \<Rightarrow> nat \<Rightarrow> openedfiles_type \<Rightarrow> os_state
     \<Rightarrow> (int result \<times> byte list \<times> openedfiles_type \<times> os_state) option" where
  "vbs_read fd buf count openedFiles os =
     (case map_of openedFiles fd of
        None \<Rightarrow> Some (Fail EBADF, [], openedFiles, os)
      | Some opf \<Rightarrow>
          if buf = 0 then Some (Fail EFAULT, [], openedFiles, os)
          else if count = 0 then Some (Return 0, [], openedFiles, os)
          else if chunkPtr opf = length (fileChunks opf) then Some (Return 0, [], openedFiles, os)
          else (case vbs_read_loop (count, opf, [], os) of
                  None \<Rightarrow> None
                | Some (nr, opf1, bufc, os1) \<Rightarrow>
                    Some (Return (int (count - nr)), bufc, openedfiles_assign fd opf1 openedFiles, os1)))"


subsection \<open>vbs\_close\<close>

text \<open>
  The destructor of an open file closes every chunk; the chunks (and their set) are
  destroyed after it.
\<close>

fun close_chunks :: "filechunks_type \<Rightarrow> os_state \<Rightarrow> filechunks_type \<times> os_state" where
  "close_chunks [] os = ([], os)"
| "close_chunks (c # cs) os =
     (case close_chunk c os of
        (c1, os1) \<Rightarrow> (case close_chunks cs os1 of (cs1, os2) \<Rightarrow> (c1 # cs1, os2)))"

definition openfile_type_dtor :: "openfile_type \<Rightarrow> os_state \<Rightarrow> os_state" where
  "openfile_type_dtor opf os =
     (case close_chunks (fileChunks opf) os of (cs, os1) \<Rightarrow> fold filechunk_type_dtor cs os1)"

text \<open>\<^verbatim>\<open>mk6fds\<close> is a \<^verbatim>\<open>std::set<int>\<close>: each value once, in ascending order.\<close>

definition vbs_close ::
  "int \<Rightarrow> openedfiles_type \<Rightarrow> os_state \<Rightarrow> int result \<times> openedfiles_type \<times> os_state" where
  "vbs_close fd openedFiles os =
     (case map_of openedFiles fd of
        None \<Rightarrow> (Fail EBADF, openedFiles, os)
      | Some opf \<Rightarrow>
          (let mk6fds = sort (remdups (filter (\<lambda>p. p < 0) (map chunkFd (fileChunks opf))));
               os1 = openfile_type_dtor opf os
           in (Return 0, openedfiles_erase fd openedFiles, fold (\<lambda>p. os_close (- p)) mk6fds os1)))"

subsection \<open>Assertions\<close>

text \<open>
  Modelled from the spec: the macros \<^verbatim>\<open>EZASSERT2\<close> (ezexcept.h) and \<^verbatim>\<open>ASSERT2_POS\<close>
  (dosyscall.h) are not part of the sources. \<^verbatim>\<open>EZASSERT2(a, e, f)\<close>: when \<open>a\<close> is false
  the statements \<open>f\<close> run (here the message and the clean-up, "fail ... and close the
  file") and an \<open>e\<close> is thrown. \<^verbatim>\<open>ASSERT2_POS(a, f)\<close> throws a \<^verbatim>\<open>syscallexception\<close>
  when \<open>a\<close> is negative.
\<close>

definition EZASSERT2 ::
  "bool \<Rightarrow> assertion \<Rightarrow> (os_state \<Rightarrow> os_state) \<Rightarrow> os_state \<Rightarrow> unit result \<times> os_state" where
  "EZASSERT2 a msg cleanup os =
     (if a then (Return (), os) else (Throw (vbs_except msg), cleanup os))"

definition ASSERT2_POS :: "int \<Rightarrow> os_state \<Rightarrow> unit result \<times> os_state" where
  "ASSERT2_POS a os = (if 0 \<le> a then (Return (), os) else (Throw syscallexception, os))"

subsection \<open>Scanning for a FlexBuff recording\<close>

text \<open>
  Modelled from the spec: \<^verbatim>\<open>direntries_type\<close> and \<^verbatim>\<open>dir_filter\<close>
  (directory\_helper\_templates.h) and \<^verbatim>\<open>Regular_Expression\<close> (regular\_expression.h)
  are not part of the sources. \<^verbatim>\<open>direntries_type\<close> is a \<^verbatim>\<open>std::set\<close> of strings: its
  elements once each, in ascending order of their bytes. \<^verbatim>\<open>dir_filter\<close> gives the names
  in a directory that satisfy the predicate ("enumerate entries whose basename matches").
  The matcher is the parameter \<open>rx\<close>: \<open>rx pattern entry\<close> is
  \<^verbatim>\<open>Regular_Expression(pattern).matches(entry)\<close>.
\<close>

fun string_less :: "string \<Rightarrow> string \<Rightarrow> bool" where
  "string_less [] [] = False"
| "string_less [] (y # ys) = True"
| "string_less (x # xs) [] = False"
| "string_less (x # xs) (y # ys) =
     ((of_char x :: nat) < of_char y \<or> (x = y \<and> string_less xs ys))"

fun direntries_insert :: "string \<Rightarrow> string list \<Rightarrow> string list" where
  "direntries_insert e [] = [e]"
| "direntries_insert e (x # xs) =
     (if string_less e x then e # x # xs
      else if string_less x e then x # direntries_insert e xs
      else x # xs)"

definition direntries_of :: "string list \<Rightarrow> string list" where
  "direntries_of es = foldl (\<lambda>s e. direntries_insert e s) [] es"

definition dir_filter :: "(string \<Rightarrow> bool) \<Rightarrow> string list \<Rightarrow> string list" where
  "dir_filter pred entries = direntries_of (filter pred entries)"

text \<open>The pattern is \<^verbatim>\<open>"^" + escape(recname) + "\\.[0-9]{8}$"\<close>.\<close>

definition isRecordingChunk :: "(string \<Rightarrow> string \<Rightarrow> bool) \<Rightarrow> string \<Rightarrow> string \<Rightarrow> bool" where
  "isRecordingChunk rx recname entry =
     rx (''^'' @ escape recname @ [backslash] @ ''.[0-9]{8}$'') entry"

text \<open>
  The loop of \<^verbatim>\<open>scanRecordingDirectory\<close> over the matching names: a chunk is built from
  each and inserted; an insert that finds its number taken throws.
\<close>

fun insert_chunks ::
  "string \<Rightarrow> string list \<Rightarrow> filechunks_type \<Rightarrow> os_state \<Rightarrow> filechunks_type result \<times> os_state" where
  "insert_chunks dir [] rv os = (Return rv, os)"
| "insert_chunks dir (p # ps) rv os =
     (case filechunk_type_path (dir @ ''/'' @ p) os of
        (Return c, os1) \<Rightarrow>
          (case filechunks_insert c rv of
             (rv1, inserted) \<Rightarrow>
               (case EZASSERT2 inserted duplicate_insert_for_chunk id (filechunk_type_dtor c os1) of
                  (Return u, os2) \<Rightarrow> insert_chunks dir ps rv1 os2
                | (Fail e, os2) \<Rightarrow> (Fail e, os2)
                | (Throw x, os2) \<Rightarrow> (Throw x, os2)))
      | (Fail e, os1) \<Rightarrow> (Fail e, os1)
      | (Throw x, os1) \<Rightarrow> (Throw x, os1))"

definition scanRecordingDirectory ::
  "(string \<Rightarrow> string \<Rightarrow> bool) \<Rightarrow> string \<Rightarrow> string \<Rightarrow> filechunks_type \<Rightarrow> os_state
     \<Rightarrow> filechunks_type result \<times> os_state" where
  "scanRecordingDirectory rx recname dir rv os =
     (case nodes os dir of
        Some (Directory entries) \<Rightarrow>
          insert_chunks dir (dir_filter (isRecordingChunk rx recname) entries) rv os
      | _ \<Rightarrow> (Return rv, os))"

definition scanRecordingMountpoint ::
  "(string \<Rightarrow> string \<Rightarrow> bool) \<Rightarrow> string \<Rightarrow> string \<Rightarrow> filechunks_type \<Rightarrow> os_state
     \<Rightarrow> filechunks_type result \<times> os_state" where
  "scanRecordingMountpoint rx recname mp fcs os =
     (let dir = mp @ ''/'' @ recname
      in case nodes os dir of
           None \<Rightarrow> (Return fcs, os)
         | Some (Regular bytes) \<Rightarrow> (Return fcs, os)
         | Some (Directory entries) \<Rightarrow> scanRecordingDirectory rx recname dir fcs os)"

fun scanRecording ::
  "(string \<Rightarrow> string \<Rightarrow> bool) \<Rightarrow> string \<Rightarrow> string list \<Rightarrow> filechunks_type \<Rightarrow> os_state
     \<Rightarrow> filechunks_type result \<times> os_state" where
  "scanRecording rx recname [] fcs os = (Return fcs, os)"
| "scanRecording rx recname (curmp # mountpoints) fcs os =
     (case scanRecordingMountpoint rx recname curmp fcs os of
        (Return fcs1, os1) \<Rightarrow> scanRecording rx recname mountpoints fcs1 os1
      | (Fail e, os1) \<Rightarrow> (Fail e, os1)
      | (Throw x, os1) \<Rightarrow> (Throw x, os1))"

subsection \<open>vbs\_open\<close>

text \<open>
  The new handle: \<^verbatim>\<open>openedFiles.begin()->first\<close> is the first key of the map, the
  smallest. (The subtraction would overflow with \<open>2^32\<close> recordings open at once; the
  integers of the model are unbounded.)
\<close>

definition new_fd :: "openedfiles_type \<Rightarrow> int" where
  "new_fd openedFiles = (if openedFiles = [] then INT_MAX else fst (hd openedFiles) - 1)"

text \<open>
  \<open>recname\<close> and \<open>rootdirs\<close> are pointers: \<open>None\<close> is the null pointer. A thrown
  \<^verbatim>\<open>int\<close> is caught and thrown again as a \<^verbatim>\<open>syscallexception\<close>; anything else
  passes through. \<^verbatim>\<open>make_pair\<close> and \<^verbatim>\<open>insert\<close> store a copy of the open file.
\<close>

definition vbs_open ::
  "(string \<Rightarrow> string \<Rightarrow> bool) \<Rightarrow> string option \<Rightarrow> string list option \<Rightarrow> openedfiles_type \<Rightarrow> os_state
     \<Rightarrow> int result \<times> openedfiles_type \<times> os_state" where
  "vbs_open rx recname rootdirs openedFiles os =
     (case (recname, rootdirs) of
        (Some (r # rs), Some dirs) \<Rightarrow>
          (case scanRecording rx (r # rs) (direntries_of dirs) [] os of
             (Throw (thrown_int eno), os1) \<Rightarrow> (Throw syscallexception, openedFiles, os1)
           | (Throw x, os1) \<Rightarrow> (Throw x, openedFiles, os1)
           | (Fail e, os1) \<Rightarrow> (Fail e, openedFiles, os1)
           | (Return chunks, os1) \<Rightarrow>
               if chunks = [] then (Fail ENOENT, openedFiles, os1)
               else (let fd = new_fd openedFiles
                     in (Return fd,
                         openedfiles_insert fd (openfile_type_copy (openfile_type_ctor chunks))
                           openedFiles,
                         os1)))
      | _ \<Rightarrow> (Fail EINVAL, openedFiles, os))"

subsection \<open>Scanning for a Mark6 recording\<close>

text \<open>
  Modelled from the spec: the layout of the two headers (mk6info.h) is not part of the
  sources. It is the parameter \<open>L\<close>: the two sizes (\<^verbatim>\<open>sizeof\<close>) and how the fields are read from the bytes
  of a header. The block number, the block size and the version are 32-bit signed
  integers (the source converts \<^verbatim>\<open>blocknum\<close> to \<^verbatim>\<open>unsigned int\<close>).
\<close>

record mk6_layout =
  fh_size :: nat
  wb_size :: nat
  MARK6_SG_SYNC_WORD :: nat
  sync_word :: "byte list \<Rightarrow> nat"
  version :: "byte list \<Rightarrow> 32 word"
  blocknum :: "byte list \<Rightarrow> 32 word"
  wbh_wb_size :: "byte list \<Rightarrow> 32 word"

text \<open>
  One pass through the \<^verbatim>\<open>while\<close> loop of \<^verbatim>\<open>scanMk6RecordingFile\<close>, its condition (the
  read of a block header) included. The state is \<open>(fpos, rv, operating system)\<close>. The
  temporary chunk is destroyed once it has been inserted. \<^verbatim>\<open>wbh->wb_size - wb_size\<close> is
  computed in \<^verbatim>\<open>size_t\<close> and converted back to \<^verbatim>\<open>off_t\<close>, which gives the signed
  difference.
\<close>

type_synonym scan_state = "int \<times> filechunks_type \<times> os_state"

fun scanMk6_body ::
  "mk6_layout \<Rightarrow> int \<Rightarrow> scan_state \<Rightarrow> (scan_state, filechunks_type result \<times> os_state) step" where
  "scanMk6_body L fd (fpos, rv, os) =
     (case os_read fd (wb_size L) os of
        (n, wbh, os1) \<Rightarrow>
          if n \<noteq> int (wb_size L) then Break (Return rv, os1)
          else
            (case EZASSERT2 (0 \<le> sint (blocknum L wbh) \<and> 0 < sint (wbh_wb_size L wbh))
                    found_bogus_stuff_in_write_block_header (os_close fd) os1 of
               (Throw x, os2) \<Rightarrow> Break (Throw x, os2)
             | (Fail e, os2) \<Rightarrow> Break (Fail e, os2)
             | (Return u, os2) \<Rightarrow>
                 (let fpos1 = fpos + int (wb_size L);
                      tmp = filechunk_type_mk6 (unat (blocknum L wbh)) fpos1
                              (sint (wbh_wb_size L wbh) - int (wb_size L)) fd
                  in case filechunks_insert tmp rv of
                       (rv1, inserted) \<Rightarrow>
                         (case EZASSERT2 inserted duplicate_insert_for_chunk (os_close fd)
                                 (filechunk_type_dtor tmp os2) of
                            (Throw x, os3) \<Rightarrow> Break (Throw x, os3)
                          | (Fail e, os3) \<Rightarrow> Break (Fail e, os3)
                          | (Return u, os3) \<Rightarrow>
                              (let fpos2 = fpos1 + (sint (wbh_wb_size L wbh) - int (wb_size L))
                               in case os_lseek_set fd fpos2 os3 of
                                    (r, os4) \<Rightarrow>
                                      if r = - 1 then Break (Return rv1, os4)
                                      else Continue (fpos2, rv1, os4))))))"

partial_function (option) scanMk6_loop ::
  "mk6_layout \<Rightarrow> int \<Rightarrow> scan_state \<Rightarrow> (filechunks_type result \<times> os_state) option" where
  "scanMk6_loop L fd s =
     (case scanMk6_body L fd s of Continue s1 \<Rightarrow> scanMk6_loop L fd s1 | Break r \<Rightarrow> Some r)"

definition scanMk6RecordingFile ::
  "mk6_layout \<Rightarrow> string \<Rightarrow> filechunks_type \<Rightarrow> os_state \<Rightarrow> (filechunks_type result \<times> os_state) option" where
  "scanMk6RecordingFile L file rv os =
     (case os_open file os of
        (fd, os1) \<Rightarrow>
          (case ASSERT2_POS fd os1 of
             (Throw x, os2) \<Rightarrow> Some (Throw x, os2)
           | (Fail e, os2) \<Rightarrow> Some (Fail e, os2)
           | (Return u, os2) \<Rightarrow>
               (case os_read fd (fh_size L) os2 of
                  (n, fh6, os3) \<Rightarrow>
                    if n \<noteq> int (fh_size L) then Some (Return rv, os_close fd os3)
                    else if sync_word L fh6 \<noteq> MARK6_SG_SYNC_WORD L then Some (Return rv, os_close fd os3)
                    else if version L fh6 \<noteq> 2 then Some (Return rv, os_close fd os3)
                    else scanMk6_loop L fd (int (fh_size L), rv, os3))))"

text \<open>
  The merge of a mountpoint's chunks into the shared set, under the mutex: a chunk whose
  number is taken is reported on the debug stream (the number and the file) and left out.
\<close>

type_synonym debug_log = "(nat \<times> string) list"

fun merge_chunks ::
  "string \<Rightarrow> filechunks_type \<Rightarrow> filechunks_type \<Rightarrow> debug_log \<Rightarrow> filechunks_type \<times> debug_log" where
  "merge_chunks file [] fcs lg = (fcs, lg)"
| "merge_chunks file (curfc # lcl) fcs lg =
     (case filechunks_insert curfc fcs of
        (fcs1, inserted) \<Rightarrow>
          merge_chunks file lcl fcs1 (if inserted then lg else lg @ [(chunkNumber curfc, file)]))"

text \<open>
  The thread of one mountpoint. The threads run concurrently; they scan files of their own
  into chunk sets of their own, and share the descriptor table of the process and the chunk
  set \<open>fcs\<close>, which they change under the mutex. The routine is a step function on the state
  of the thread, other threads running between the steps: a thread that has been created
  looks at its file and scans it into the local set \<open>lcl\<close>; a thread that has scanned takes
  the mutex, merges \<open>lcl\<close> into \<open>fcs\<close>, destroys \<open>lcl\<close> and ends. An exception of the scan
  leaves the routine.
\<close>

datatype thrd = Created string string | Scanned string filechunks_type | Finished

fun scanMk6RecordingMountpoint_thrd ::
  "mk6_layout \<Rightarrow> thrd \<Rightarrow> filechunks_type \<Rightarrow> debug_log \<Rightarrow> os_state
     \<Rightarrow> ((thrd \<times> filechunks_type \<times> debug_log) result \<times> os_state) option" where
  "scanMk6RecordingMountpoint_thrd L (Created recname mp) fcs lg os =
     (let file = mp @ ''/'' @ recname
      in case nodes os file of
           Some (Regular bytes) \<Rightarrow>
             (case scanMk6RecordingFile L file [] os of
                None \<Rightarrow> None
              | Some (Return lcl, os1) \<Rightarrow> Some (Return (Scanned file lcl, fcs, lg), os1)
              | Some (Fail e, os1) \<Rightarrow> Some (Fail e, os1)
              | Some (Throw x, os1) \<Rightarrow> Some (Throw x, os1))
         | _ \<Rightarrow> Some (Return (Finished, fcs, lg), os))"
| "scanMk6RecordingMountpoint_thrd L (Scanned file lcl) fcs lg os =
     (case merge_chunks file lcl fcs lg of
        (fcs1, lg1) \<Rightarrow> Some (Return (Finished, fcs1, lg1), fold filechunk_type_dtor lcl os))"
| "scanMk6RecordingMountpoint_thrd L Finished fcs lg os = Some (Return (Finished, fcs, lg), os)"

text \<open>
  The threads that have not ended, by their place in the list of threads, and the one that
  runs next: the head of the schedule when that is one of them, the first of them otherwise.
\<close>

definition runnable :: "thrd list \<Rightarrow> nat list" where
  "runnable ts = filter (\<lambda>i. ts ! i \<noteq> Finished) [0..<length ts]"

definition pick :: "thrd list \<Rightarrow> os_state \<Rightarrow> nat \<times> os_state" where
  "pick ts os =
     (case schedule os of
        [] \<Rightarrow> (hd (runnable ts), os)
      | i # sched \<Rightarrow>
          ((if i \<in> set (runnable ts) then i else hd (runnable ts)), os\<lparr>schedule := sched\<rparr>))"

text \<open>
  The threads of \<^verbatim>\<open>scanMk6Recording\<close>, from their creation to the last
  \<^verbatim>\<open>pthread_join\<close>: the scheduler picks a thread and the thread takes a step, until all
  have ended. An exception that leaves a thread routine ends the process
  (\<^verbatim>\<open>std::terminate\<close>): the call does not return, which is the value \<open>None\<close>, as it is
  for a scan that does not end.
\<close>

partial_function (option) run_threads ::
  "mk6_layout \<Rightarrow> thrd list \<times> filechunks_type \<times> debug_log \<times> os_state
     \<Rightarrow> ((filechunks_type \<times> debug_log) \<times> os_state) option" where
  "run_threads L s =
     (case s of
        (ts, fcs, lg, os) \<Rightarrow>
          if runnable ts = [] then Some ((fcs, lg), os)
          else (case pick ts os of
                  (i, os0) \<Rightarrow>
                    (case scanMk6RecordingMountpoint_thrd L (ts ! i) fcs lg os0 of
                       None \<Rightarrow> None
                     | Some (Return (t, fcs1, lg1), os1) \<Rightarrow> run_threads L (ts[i := t], fcs1, lg1, os1)
                     | Some (Fail e, os1) \<Rightarrow> None
                     | Some (Throw x, os1) \<Rightarrow> None)))"

text \<open>
  Modelled from the spec: \<^verbatim>\<open>mp_pthread_create\<close> (threadutil.h) is not part of the
  sources; it is taken to start the thread ("one worker per mountpoint"). The
  threads are created in the order of the set of mountpoints.
\<close>

definition scanMk6Recording ::
  "mk6_layout \<Rightarrow> string \<Rightarrow> string list \<Rightarrow> filechunks_type \<Rightarrow> debug_log \<Rightarrow> os_state
     \<Rightarrow> ((filechunks_type \<times> debug_log) \<times> os_state) option" where
  "scanMk6Recording L recname mountpoints fcs lg os =
     run_threads L (map (Created recname) mountpoints, fcs, lg, os)"

subsection \<open>mk6\_open\<close>

definition mk6_open ::
  "mk6_layout \<Rightarrow> string option \<Rightarrow> string list option \<Rightarrow> openedfiles_type \<Rightarrow> os_state
     \<Rightarrow> (int result \<times> debug_log \<times> openedfiles_type \<times> os_state) option" where
  "mk6_open L recname rootdirs openedFiles os =
     (case (recname, rootdirs) of
        (Some (r # rs), Some dirs) \<Rightarrow>
          (case scanMk6Recording L (r # rs) (direntries_of dirs) [] [] os of
             None \<Rightarrow> None
           | Some ((chunks, lg), os1) \<Rightarrow>
               if chunks = [] then Some (Fail ENOENT, lg, openedFiles, os1)
               else (let fd = new_fd openedFiles
                     in Some (Return fd, lg,
                              openedfiles_insert fd (openfile_type_copy (openfile_type_ctor chunks))
                                openedFiles,
                              os1)))
      | _ \<Rightarrow> Some (Fail EINVAL, [], openedFiles, os))"

subsection \<open>The specification's reading of a Mark6 file\<close>

text \<open>
  The blocks of a file as the specification describes them, from a position on: while a
  whole block header can be read at the position, it gives a chunk \<open>(sequence number, size,
  position of the payload)\<close>, and the next header is \<open>wb_size\<close> bytes after the start of
  this one. It is compared with \<^verbatim>\<open>scanMk6RecordingFile\<close> below.
\<close>

function block_walk :: "mk6_layout \<Rightarrow> byte list \<Rightarrow> int \<Rightarrow> (nat \<times> int \<times> int) list" where
  "block_walk L bytes pos =
     (if 0 \<le> pos \<and> pos + int (wb_size L) \<le> int (length bytes)
      then (let hdr = take (wb_size L) (drop (nat pos) bytes)
            in (nat (sint (blocknum L hdr)), sint (wbh_wb_size L hdr) - int (wb_size L),
                pos + int (wb_size L))
               # (if 0 < sint (wbh_wb_size L hdr)
                  then block_walk L bytes (pos + sint (wbh_wb_size L hdr)) else []))
      else [])"
  by pat_completeness auto
termination
  by (relation "measure (\<lambda>(L, bytes, pos). nat (int (length bytes) + 1 - pos))") auto

subsection \<open>Notions used in the statements and proofs\<close>

text \<open>The open descriptors other than \<open>fd\<close>.\<close>

definition others :: "int \<Rightarrow> os_state \<Rightarrow> (int \<times> byte list \<times> int) list" where
  "others fd os = filter (\<lambda>e. fst e \<noteq> fd) (fds os)"

text \<open>
  What a scan of the file on descriptor \<open>fd\<close> leaves of the operating system \<open>os\<close> it
  started in: the file system as it was; after an exception the descriptors as they were
  without \<open>fd\<close>, otherwise the other descriptors as they were.
\<close>

definition frame_ok :: "int \<Rightarrow> os_state \<Rightarrow> filechunks_type result \<times> os_state \<Rightarrow> bool" where
  "frame_ok fd os r =
     (nodes (snd r) = nodes os
      \<and> (case fst r of Throw x \<Rightarrow> fds (snd r) = others fd os
                      | _ \<Rightarrow> others fd (snd r) = others fd os))"




text \<open>A chunk set in the order of its numbers, each once.\<close>

abbreviation (input) numbered :: "filechunks_type \<Rightarrow> bool" where
  "numbered cs \<equiv> sorted_wrt (<) (map chunkNumber cs)"

subsection \<open>Examples\<close>

text \<open>
  Modelled from the spec: \<^verbatim>\<open>Regular_Expression\<close> (regular_expression.h) is not part of the
  sources. In the functions above the matcher is the parameter \<open>rx\<close>. The recordings below
  have names of letters, digits and underscores, which \<^verbatim>\<open>escape\<close> leaves as they are; for
  them the matcher is that of the patterns \<^verbatim>\<open>^name\.[0-9]{8}$\<close> with such a name: an entry
  matches when it is the name, a dot and eight digits. (Of other patterns it says nothing:
  it matches no entry.)
\<close>

definition literal_rx :: "string \<Rightarrow> string \<Rightarrow> bool" where
  "literal_rx pattern entry =
     (let suffix = [backslash] @ ''.[0-9]{8}$'';
          n = length pattern - length suffix;
          name = take (n - 1) (tl pattern)
      in pattern \<noteq> [] \<and> hd pattern = CHR ''^'' \<and> drop n pattern = suffix
         \<and> list_all word_char name
         \<and> length entry = length name + 9
         \<and> take (length name + 1) entry = name @ ''.''
         \<and> list_all isdigit (drop (length name + 1) entry))"

text \<open>
  A layout for the examples: little-endian 32-bit fields, a file header of 20 bytes (sync
  word, version, three more fields) and a block header of 8 (block number, block size).
\<close>

definition le32 :: "byte list \<Rightarrow> nat" where
  "le32 bs = foldr (\<lambda>b n. unat b + 256 * n) (take 4 bs) 0"

definition mark6_v2 :: mk6_layout where
  "mark6_v2 = \<lparr>fh_size = 20, wb_size = 8, MARK6_SG_SYNC_WORD = 0xfeed6666,
       sync_word = le32,
       version = (\<lambda>h. of_nat (le32 (drop 4 h))),
       blocknum = (\<lambda>h. of_nat (le32 h)),
       wbh_wb_size = (\<lambda>h. of_nat (le32 (drop 4 h)))\<rparr>"

text \<open>
  A FlexBuff recording \<open>r\<close> on one mountpoint, its chunks numbered 0 (ten bytes) and 5
  (five bytes), and the open file \<^verbatim>\<open>vbs_open\<close> makes of it.
\<close>

definition os_B :: os_state where
  "os_B = \<lparr>nodes = [''/d/r'' \<mapsto> Directory [''r.00000005'', ''r.00000000'', ''notes''],
                     ''/d/r/r.00000000'' \<mapsto> Regular [65, 66, 67, 68, 69, 70, 71, 72, 73, 74],
                     ''/d/r/r.00000005'' \<mapsto> Regular [75, 76, 77, 78, 79]],
           fds = [], dirfds = [], dir_end = (\<lambda>path. 0), schedule = []\<rparr>"

definition chunk_0 :: filechunk_type where
  "chunk_0 = \<lparr>pathToChunk = ''/d/r/r.00000000'', chunkSize = 10, chunkPos = 0,
              chunkFd = invalidFileDescriptor, chunkOffset = 0, chunkNumber = 0\<rparr>"

definition chunk_5 :: filechunk_type where
  "chunk_5 = \<lparr>pathToChunk = ''/d/r/r.00000005'', chunkSize = 5, chunkPos = 0,
              chunkFd = invalidFileDescriptor, chunkOffset = 10, chunkNumber = 5\<rparr>"

definition rec_B :: openfile_type where
  "rec_B = \<lparr>filePointer = 0, fileSize = 15, fileChunks = [chunk_0, chunk_5], chunkPtr = 0\<rparr>"


text \<open>
  A Mark6 file of two blocks, numbered 0 (eight bytes) and 1 (four bytes); the same file
  cut off four bytes into the payload of block 0, whose header still says eight; and a file
  whose second block header holds the number -1. Descriptors 0, 1 and 2 are in use.
\<close>

definition file_D :: "byte list" where
  "file_D = [0x66, 0x66, 0xed, 0xfe, 2, 0, 0, 0, 0, 0, 0, 0, 0, 0, 0, 0, 0, 0, 0, 0,
             0, 0, 0, 0, 16, 0, 0, 0, 65, 65, 65, 65, 65, 65, 65, 65,
             1, 0, 0, 0, 12, 0, 0, 0, 66, 66, 66, 66]"

definition file_T :: "byte list" where
  "file_T = take 32 file_D"

definition file_X :: "byte list" where
  "file_X = take 36 file_D @ [0xff, 0xff, 0xff, 0xff, 12, 0, 0, 0, 66, 66, 66, 66]"

definition std_fds :: "(int \<times> byte list \<times> int) list" where
  "std_fds = [(0, [], 0), (1, [], 0), (2, [], 0)]"

definition os_D :: os_state where
  "os_D = \<lparr>nodes = [''/m1/r'' \<mapsto> Regular file_D, ''/m2/r'' \<mapsto> Regular file_D,
                     ''/m3/r'' \<mapsto> Regular file_T, ''/m4/r'' \<mapsto> Regular file_X],
           fds = std_fds, dirfds = [], dir_end = (\<lambda>path. 0), schedule = []\<rparr>"

text \<open>
  What \<^verbatim>\<open>mk6_open\<close> makes of the cut-off file and of the whole one, and the two chunks
  numbered 0 of the FlexBuff recording on two mountpoints.
\<close>

definition rec_T :: openfile_type where
  "rec_T = \<lparr>filePointer = 0, fileSize = 8, fileChunks = [filechunk_type_mk6 0 28 8 3], chunkPtr = 0\<rparr>"


text \<open>What \<^verbatim>\<open>mk6_open\<close> makes of the whole file when no descriptor is in use.\<close>

definition rec_F :: openfile_type where
  "rec_F = \<lparr>filePointer = 0, fileSize = 8,
            fileChunks = [\<lparr>pathToChunk = [], chunkSize = 8, chunkPos = 28,
                          chunkFd = invalidFileDescriptor, chunkOffset = 0, chunkNumber = 0\<rparr>],
            chunkPtr = 0\<rparr>"



declare block_walk.simps [simp del]
declare scanMk6_body.simps [simp del]
declare vbs_read_body.simps [simp del]

section \<open>Lemmas\<close>

subsection \<open>escape\<close>

lemma string_find_None: "string_find s c = None \<longleftrightarrow> c \<notin> set s"
  by (induction s) auto

lemma alphanum_codes:
  "set (map of_char alphanum_str) = set ([65..<91] @ [97..<123] @ [48..<58] @ [95::nat])"
  unfolding alphanum_str_def by code_simp

lemma alphanum_word_char: "c \<in> set alphanum_str \<longleftrightarrow> word_char c"
proof -
  have "c \<in> set alphanum_str \<longleftrightarrow> (of_char c :: nat) \<in> of_char ` set alphanum_str"
    by (auto dest: injD [OF inj_of_char])
  also have "\<dots> \<longleftrightarrow> (of_char c :: nat) \<in> set ([65..<91] @ [97..<123] @ [48..<58] @ [95::nat])"
    using alphanum_codes by simp
  also have "\<dots> \<longleftrightarrow> word_char c"
    unfolding set_append set_upt word_char_def Let_def by auto
  finally show ?thesis .
qed

lemma escape_loop_spec: "escape_loop rv s = rv @ escape_spec s"
  by (induction s arbitrary: rv)
     (simp_all add: escape_spec_def string_find_None alphanum_word_char)

lemma escape_spec_word: "list_all word_char s \<Longrightarrow> escape_spec s = s"
  by (induction s) (simp_all add: escape_spec_def)

subsection \<open>The operating system\<close>

lemma find_SomeD: "find P xs = Some x \<Longrightarrow> P x \<and> x \<in> set xs"
  by (induction xs) (auto split: if_splits)

lemma lowest_free_fresh: "lowest_free used \<notin> set used"
proof (cases "find (\<lambda>n. n \<notin> set used) (map int [0..<Suc (length used)])")
  case None
  then have "\<forall>x \<in> set (map int [0..<Suc (length used)]). x \<in> set used"
    unfolding find_None_iff by blast
  then have "int ` {0..<Suc (length used)} \<subseteq> set used"
    unfolding set_map set_upt by blast
  then have "card (int ` {0..<Suc (length used)}) \<le> card (set used)"
    by (intro card_mono) auto
  moreover have "card (int ` {0..<Suc (length used)}) = Suc (length used)"
    by (simp add: card_image)
  moreover have "card (set used) \<le> length used"
    by (rule card_length)
  ultimately show ?thesis by simp
next
  case (Some n)
  from find_SomeD [OF this] have "n \<notin> set used" by simp
  with Some show ?thesis
    unfolding lowest_free_def by simp
qed

lemma lowest_free_nonneg: "0 \<le> lowest_free used"
proof (cases "find (\<lambda>n. n \<notin> set used) (map int [0..<Suc (length used)])")
  case None
  then show ?thesis unfolding lowest_free_def by simp
next
  case (Some n)
  from find_SomeD [OF this] have "n \<in> int ` {0..<Suc (length used)}"
    unfolding set_map set_upt by simp
  then have "0 \<le> n" by (auto simp del: upt_Suc)
  with Some show ?thesis unfolding lowest_free_def by simp
qed

lemma fd_lookup_set_offset:
  "fd_lookup fd os = Some (b, off) \<Longrightarrow> fd_lookup fd (set_offset fd p os) = Some (b, p)"
proof -
  have "map_of xs fd = Some (b, off) \<Longrightarrow>
        map_of (map (\<lambda>e. if fst e = fd then (fd, fst (snd e), p) else e) xs) fd = Some (b, p)" for xs
    by (induction xs) auto
  then show "fd_lookup fd os = Some (b, off) \<Longrightarrow> fd_lookup fd (set_offset fd p os) = Some (b, p)"
    by (simp add: fd_lookup_def set_offset_def)
qed

lemma filter_set_offset:
  "filter (\<lambda>e. fst e \<noteq> fd) (map (\<lambda>e. if fst e = fd then (fd, fst (snd e), p) else e) xs)
     = filter (\<lambda>e. fst e \<noteq> fd) xs"
  by (induction xs) auto

lemma others_set_offset [simp]: "others fd (set_offset fd p os) = others fd os"
  by (simp add: others_def set_offset_def filter_set_offset)

lemma nodes_set_offset [simp]: "nodes (set_offset fd p os) = nodes os"
  by (simp add: set_offset_def)

lemma others_close [simp]: "others fd (os_close fd os) = others fd os"
  by (simp add: others_def os_close_def)

lemma fds_close: "fds (os_close fd os) = others fd os"
  by (simp add: others_def os_close_def)

lemma nodes_close [simp]: "nodes (os_close fd os) = nodes os"
  by (simp add: os_close_def)

lemma others_read [simp]: "others fd (snd (snd (os_read fd n os))) = others fd os"
  by (simp add: os_read_def Let_def split: option.splits)

lemma nodes_read [simp]: "nodes (snd (snd (os_read fd n os))) = nodes os"
  by (simp add: os_read_def Let_def split: option.splits)

lemma others_lseek [simp]: "others fd (snd (os_lseek_set fd p os)) = others fd os"
  by (simp add: os_lseek_set_def split: option.splits)

lemma nodes_lseek [simp]: "nodes (snd (os_lseek_set fd p os)) = nodes os"
  by (simp add: os_lseek_set_def split: option.splits)

lemma dirfds_set_offset [simp]: "dirfds (set_offset fd p os) = dirfds os"
  by (simp add: set_offset_def)

lemma os_read_open:
  "fd_lookup fd os = Some (bytes, off) \<Longrightarrow> fd \<notin> set (map fst (dirfds os)) \<Longrightarrow>
   os_read fd n os = (int (length (take n (drop (nat off) bytes))), take n (drop (nat off) bytes),
                      set_offset fd (off + int (length (take n (drop (nat off) bytes)))) os)"
  by (simp add: os_read_def Let_def)

lemma os_lseek_open:
  "fd_lookup fd os = Some (bytes, off) \<Longrightarrow> 0 \<le> p \<Longrightarrow> os_lseek_set fd p os = (p, set_offset fd p os)"
  by (simp add: os_lseek_set_def)

lemma map_of_fresh: "fd \<notin> fst ` set xs \<Longrightarrow> map_of (xs @ [(fd, v)]) fd = Some v"
  by (induction xs) auto

lemma others_fresh: "fd \<notin> fst ` set xs \<Longrightarrow> filter (\<lambda>e. fst e \<noteq> fd) (xs @ [(fd, b, off)]) = xs"
  by (induction xs) auto

lemma os_open_frame:
  assumes "os_open file os = (fd, os1)"
  shows "nodes os1 = nodes os"
    and "0 \<le> fd \<Longrightarrow> fd \<notin> fst ` set (fds os) \<and> others fd os1 = fds os"
proof -
  define k where "k = lowest_free (map fst (fds os))"
  have k: "k \<notin> fst ` set (fds os)"
    using lowest_free_fresh [of "map fst (fds os)"] by (simp add: k_def)
  show "nodes os1 = nodes os"
    using assms by (auto simp: os_open_def Let_def split: option.splits node.splits)
  show "fd \<notin> fst ` set (fds os) \<and> others fd os1 = fds os" if "0 \<le> fd"
  proof (cases "nodes os file")
    case None
    with assms that show ?thesis by (simp add: os_open_def)
  next
    case (Some nd)
    show ?thesis
    proof (cases nd)
      case (Regular bytes)
      with Some assms have "fd = k" "os1 = os\<lparr>fds := fds os @ [(k, bytes, 0)]\<rparr>"
        by (auto simp: os_open_def Let_def k_def)
      with k others_fresh [OF k, of bytes 0] show ?thesis by (simp add: others_def)
    next
      case (Directory es)
      with Some assms have "fd = k" "fds os1 = fds os @ [(k, [], 0)]"
        by (auto simp: os_open_def Let_def k_def)
      with k others_fresh [OF k, of "[]" 0] show ?thesis by (simp add: others_def)
    qed
  qed
qed

lemma nodes_lseek_end [simp]: "nodes (snd (os_lseek_end fd os)) = nodes os"
  by (simp add: os_lseek_end_def split: option.splits)

subsection \<open>Chunks and chunk sets\<close>

lemma copy_fields [simp]:
  "chunkNumber (filechunk_type_copy c) = chunkNumber c"
  "chunkSize (filechunk_type_copy c) = chunkSize c"
  "chunkOffset (filechunk_type_copy c) = chunkOffset c"
  by (simp_all add: filechunk_type_copy_def)

lemma dtor_mk6_noop: "0 < fd \<Longrightarrow> filechunk_type_dtor (filechunk_type_mk6 n p sz fd) os = os"
  by (simp add: filechunk_type_dtor_def filechunk_type_mk6_def)

lemma copy_mk6: "0 < fd \<Longrightarrow> filechunk_type_copy (filechunk_type_mk6 n p sz fd) = filechunk_type_mk6 n p sz fd"
  by (simp add: filechunk_type_copy_def filechunk_type_mk6_def)

lemma unat_sint:
  assumes "0 \<le> sint (w :: 32 word)"
  shows "unat w = nat (sint w)"
proof -
  have "sint w < 2 ^ 32"
    using sint_lt [of w] by simp
  with assms have "take_bit 32 (sint w) = sint w"
    by (simp add: take_bit_int_eq_self)
  then have "uint w = sint w"
    using uint_sint [of w] by simp
  then show ?thesis
    by (simp add: unat_eq_nat_uint)
qed

lemma others_dtor_mk6:
  "0 \<le> fd \<Longrightarrow> others fd (filechunk_type_dtor (filechunk_type_mk6 n p sz fd) os) = others fd os"
  by (simp add: filechunk_type_dtor_def filechunk_type_mk6_def)

lemma nodes_dtor [simp]: "nodes (filechunk_type_dtor c os) = nodes os"
  by (simp add: filechunk_type_dtor_def)

lemma insert_numbers:
  "set (map chunkNumber (fst (filechunks_insert c xs))) = insert (chunkNumber c) (set (map chunkNumber xs))"
  by (induction xs) (auto simp: filechunk_type_copy_def case_prod_beta)

lemma insert_sorted:
  "sorted_wrt (<) (map chunkNumber xs) \<Longrightarrow> sorted_wrt (<) (map chunkNumber (fst (filechunks_insert c xs)))"
proof (induction xs)
  case Nil
  then show ?case by (simp add: filechunk_type_copy_def)
next
  case (Cons x xs)
  have *: "set (map chunkNumber (fst (filechunks_insert c xs))) = insert (chunkNumber c) (set (map chunkNumber xs))"
    by (rule insert_numbers)
  show ?case
  proof (cases "chunkNumber c < chunkNumber x")
    case True
    with Cons.prems show ?thesis by (auto simp: filechunk_type_copy_def)
  next
    case False
    show ?thesis
    proof (cases "chunkNumber x < chunkNumber c")
      case True
      with False Cons * show ?thesis by (auto simp: case_prod_beta)
    next
      case nlt: False
      with False Cons.prems show ?thesis by simp
    qed
  qed
qed



lemma insert_set:
  "set (fst (filechunks_insert c xs)) =
     (if snd (filechunks_insert c xs) then insert (filechunk_type_copy c) (set xs) else set xs)"
  by (induction xs) (auto simp: case_prod_beta)

subsection \<open>The offsets of an open file\<close>

lemma assign_offsets_length: "length (fst (assign_offsets t cs)) = length cs"
  by (induction cs arbitrary: t) (simp_all add: case_prod_beta)

lemma assign_offsets_numbers: "map chunkNumber (fst (assign_offsets t cs)) = map chunkNumber cs"
  by (induction cs arbitrary: t) (simp_all add: case_prod_beta)

lemma assign_offsets_sizes: "map chunkSize (fst (assign_offsets t cs)) = map chunkSize cs"
  by (induction cs arbitrary: t) (simp_all add: case_prod_beta)

lemma assign_offsets_total: "snd (assign_offsets t cs) = t + sum_list (map chunkSize cs)"
  by (induction cs arbitrary: t) (simp_all add: case_prod_beta)

lemma assign_offsets_nth:
  "i < length cs \<Longrightarrow>
   chunkOffset (fst (assign_offsets t cs) ! i) = t + sum_list (map chunkSize (take i cs))"
proof (induction cs arbitrary: t i)
  case Nil
  then show ?case by simp
next
  case (Cons c cs)
  show ?case
  proof (cases i)
    case 0
    then show ?thesis by (simp add: case_prod_beta)
  next
    case (Suc j)
    with Cons.prems have "j < length cs" by simp
    from Cons.IH [OF this, of "t + chunkSize c"] Suc show ?thesis
      by (simp add: case_prod_beta)
  qed
qed

lemma ctor_props:
  fixes chunks defines "opf \<equiv> openfile_type_copy (openfile_type_ctor chunks)"
  shows "length (fileChunks opf) = length chunks"
    and "map chunkNumber (fileChunks opf) = map chunkNumber chunks"
    and "map chunkSize (fileChunks opf) = map chunkSize chunks"
    and "fileSize opf = sum_list (map chunkSize chunks)"
    and "i < length chunks \<Longrightarrow> chunkOffset (fileChunks opf ! i) = sum_list (map chunkSize (take i chunks))"
proof -
  let ?cs = "map filechunk_type_copy chunks"
  have fc: "fileChunks opf = map filechunk_type_copy (fst (assign_offsets 0 ?cs))"
    and fs: "fileSize opf = snd (assign_offsets 0 ?cs)"
    by (simp_all add: opf_def openfile_type_copy_def openfile_type_ctor_def case_prod_beta)
  show "length (fileChunks opf) = length chunks"
    by (simp add: fc assign_offsets_length)
  show "map chunkNumber (fileChunks opf) = map chunkNumber chunks"
    using assign_offsets_numbers [of 0 ?cs] by (simp add: fc o_def)
  show "map chunkSize (fileChunks opf) = map chunkSize chunks"
    using assign_offsets_sizes [of 0 ?cs] by (simp add: fc o_def)
  show "fileSize opf = sum_list (map chunkSize chunks)"
    by (simp add: fs assign_offsets_total o_def)
  show "chunkOffset (fileChunks opf ! i) = sum_list (map chunkSize (take i chunks))"
    if "i < length chunks"
    using that assign_offsets_nth [of i ?cs 0]
    by (simp add: fc assign_offsets_length take_map o_def)
qed

lemma ctor_gapless:
  assumes "chunks \<noteq> []" and "sorted_wrt (<) (map chunkNumber chunks)"
  defines "opf \<equiv> openfile_type_copy (openfile_type_ctor chunks)"
  shows "fileChunks opf \<noteq> []
       \<and> sorted_wrt (<) (map chunkNumber (fileChunks opf))
       \<and> chunkOffset (hd (fileChunks opf)) = 0
       \<and> (\<forall>i. Suc i < length (fileChunks opf) \<longrightarrow>
             chunkOffset (fileChunks opf ! Suc i)
               = chunkOffset (fileChunks opf ! i) + chunkSize (fileChunks opf ! i))
       \<and> fileSize opf = sum_list (map chunkSize (fileChunks opf))"
proof -
  note p = ctor_props [where chunks = chunks, folded opf_def]
  from assms(1) p(1) have ne: "fileChunks opf \<noteq> []" by auto
  have srt: "sorted_wrt (<) (map chunkNumber (fileChunks opf))"
    using assms(2) p(2) by simp
  have h0: "chunkOffset (hd (fileChunks opf)) = 0"
    using p(5) [of 0] assms(1) ne by (simp add: hd_conv_nth)
  have adj: "chunkOffset (fileChunks opf ! Suc i)
               = chunkOffset (fileChunks opf ! i) + chunkSize (fileChunks opf ! i)"
    if "Suc i < length (fileChunks opf)" for i
  proof -
    from that p(1) have i: "i < length chunks" "Suc i < length chunks" by simp_all
    have "chunkSize (fileChunks opf ! i) = chunkSize (chunks ! i)"
      using i p(1) p(3) by (metis length_map nth_map)
    with p(5) [OF i(1)] p(5) [OF i(2)] i show ?thesis
      by (simp add: take_Suc_conv_app_nth)
  qed
  have sz: "fileSize opf = sum_list (map chunkSize (fileChunks opf))"
    using p(3) p(4) by simp
  from ne srt h0 adj sz show ?thesis by blast
qed

subsection \<open>The handle table\<close>


lemma new_fd_front: "openedfiles_insert (new_fd T) v T = (new_fd T, v) # T"
  by (cases T) (simp_all add: new_fd_def)

lemma sorted_keys_Min:
  "sorted_wrt (<) (map fst (e # m)) \<Longrightarrow> Min (fst ` set (e # m)) = fst e"
  by (intro Min_eqI) auto

subsection \<open>Seeking and reading\<close>




lemma whence_newfp:
  assumes "whence = SEEK_SET \<and> newfp = offset
       \<or> whence = SEEK_CUR \<and> newfp = filePointer opf + offset
       \<or> whence = SEEK_END \<and> newfp = fileSize opf + offset"
  shows "(if whence = SEEK_SET then Some offset
          else if whence = SEEK_END then Some (fileSize opf + offset)
          else if whence = SEEK_CUR then Some (filePointer opf + offset)
          else None) = Some newfp"
  using assms by (elim disjE conjE) (simp_all add: SEEK_SET_def SEEK_CUR_def SEEK_END_def)


lemma vbs_lseek_stays:
  assumes "map_of openedFiles fd = Some opf"
    and "whence = SEEK_SET \<and> newfp = offset
       \<or> whence = SEEK_CUR \<and> newfp = filePointer opf + offset
       \<or> whence = SEEK_END \<and> newfp = fileSize opf + offset"
  shows "newfp < 0 \<Longrightarrow> vbs_lseek fd offset whence openedFiles os = (Fail EINVAL, openedFiles, os)"
    and "0 \<le> newfp \<Longrightarrow> newfp = filePointer opf \<Longrightarrow>
         vbs_lseek fd offset whence openedFiles os = (Return newfp, openedFiles, os)"
  unfolding vbs_lseek_def using assms(1) whence_newfp [OF assms(2)]
  by simp_all


lemma vbs_read_loop_stuck:
  assumes "vbs_read_body s = Continue s"
  shows "vbs_read_loop s = None"
proof (cases "vbs_read_loop s")
  case None
  then show ?thesis .
next
  case (Some y)
  have "s \<noteq> s"
  proof (rule vbs_read_loop.raw_induct [where P = "\<lambda>x y. x \<noteq> s", OF _ Some])
    fix loop x y
    assume IH: "\<And>x y. loop x = Some y \<Longrightarrow> x \<noteq> s"
      and step: "(case vbs_read_body x of Continue s1 \<Rightarrow> loop s1 | Break s1 \<Rightarrow> Some s1) = Some y"
    show "x \<noteq> s"
    proof
      assume "x = s"
      with step assms have "loop s = Some y" by simp
      with IH show False by blast
    qed
  qed
  then show ?thesis by simp
qed

subsection \<open>Scanning a FlexBuff recording\<close>

lemma insert_chunks_sorted:
  "insert_chunks dir ps rv os = (Return rv1, os1) \<Longrightarrow> numbered rv \<Longrightarrow> numbered rv1"
proof (induction ps arbitrary: rv os)
  case Nil
  then show ?case by simp
next
  case (Cons p ps)
  from Cons.prems(1) obtain c os2 rv2 where
    ins: "filechunks_insert c rv = (rv2, True)"
    and rest: "insert_chunks dir ps rv2 (filechunk_type_dtor c os2) = (Return rv1, os1)"
    by (auto simp: EZASSERT2_def split: prod.splits result.splits if_splits)
  from insert_sorted [OF Cons.prems(2), of c] ins have "numbered rv2" by simp
  with Cons.IH [OF rest] show ?case .
qed

lemma scanRecordingDirectory_sorted:
  "scanRecordingDirectory rx recname dir rv os = (Return rv1, os1) \<Longrightarrow> numbered rv \<Longrightarrow> numbered rv1"
  by (auto simp: scanRecordingDirectory_def split: option.splits node.splits
           dest: insert_chunks_sorted)

lemma scanRecordingMountpoint_sorted:
  "scanRecordingMountpoint rx recname mp rv os = (Return rv1, os1) \<Longrightarrow> numbered rv \<Longrightarrow> numbered rv1"
  by (auto simp: scanRecordingMountpoint_def Let_def split: option.splits node.splits
           dest: scanRecordingDirectory_sorted)

lemma scanRecording_sorted:
  "scanRecording rx recname mps rv os = (Return rv1, os1) \<Longrightarrow> numbered rv \<Longrightarrow> numbered rv1"
proof (induction mps arbitrary: rv os)
  case Nil
  then show ?case by simp
next
  case (Cons mp mps)
  from Cons.prems(1) obtain rv2 os2 where
    first: "scanRecordingMountpoint rx recname mp rv os = (Return rv2, os2)"
    and rest: "scanRecording rx recname mps rv2 os2 = (Return rv1, os1)"
    by (auto split: prod.splits result.splits)
  from scanRecordingMountpoint_sorted [OF first Cons.prems(2)] Cons.IH [OF rest]
  show ?case by blast
qed









lemma vbs_open_Return:
  assumes "vbs_open rx recname rootdirs T os = (Return h, T1, os1)"
  obtains r rs dirs chunks where
    "recname = Some (r # rs)" "rootdirs = Some dirs"
    "scanRecording rx (r # rs) (direntries_of dirs) [] os = (Return chunks, os1)"
    "chunks \<noteq> []" "h = new_fd T"
    "T1 = (h, openfile_type_copy (openfile_type_ctor chunks)) # T"
  using assms unfolding vbs_open_def
  by (auto simp: Let_def new_fd_front
           split: option.splits list.splits prod.splits result.splits exn.splits if_splits)

subsection \<open>Scanning a Mark6 recording\<close>

lemma body_others:
  assumes "0 \<le> fd"
  shows "case scanMk6_body L fd (fpos, rv, os) of
           Continue (fpos1, rv1, os1) \<Rightarrow> others fd os1 = others fd os \<and> nodes os1 = nodes os
         | Break r \<Rightarrow> frame_ok fd os r"
proof -
  obtain n wbh os1 where r: "os_read fd (wb_size L) os = (n, wbh, os1)"
    by (cases "os_read fd (wb_size L) os") auto
  have o1: "others fd os1 = others fd os" "nodes os1 = nodes os"
    using others_read [of fd "wb_size L" os] nodes_read [of fd "wb_size L" os] r by simp_all
  define tmp where "tmp = filechunk_type_mk6 (unat (blocknum L wbh)) (fpos + int (wb_size L))
                              (sint (wbh_wb_size L wbh) - int (wb_size L)) fd"
  obtain rv1 ins where i: "filechunks_insert tmp rv = (rv1, ins)"
    by (cases "filechunks_insert tmp rv") auto
  define os2 where "os2 = filechunk_type_dtor tmp os1"
  have o2: "others fd os2 = others fd os" "nodes os2 = nodes os"
    using others_dtor_mk6 [OF assms] o1 by (simp_all add: os2_def tmp_def)
  define p2 where "p2 = fpos + int (wb_size L) + (sint (wbh_wb_size L wbh) - int (wb_size L))"
  obtain r4 os4 where l: "os_lseek_set fd p2 os2 = (r4, os4)"
    by (cases "os_lseek_set fd p2 os2") auto
  have "others fd (snd (os_lseek_set fd p2 os2)) = others fd os2"
       "nodes (snd (os_lseek_set fd p2 os2)) = nodes os2"
    by simp_all
  with l o2 have o4: "others fd os4 = others fd os" "nodes os4 = nodes os"
    by simp_all
  show ?thesis
    using r i l o1 o2 o4
    by (simp add: scanMk6_body.simps EZASSERT2_def Let_def tmp_def [symmetric] os2_def [symmetric]
          p2_def [symmetric] fds_close frame_ok_def)
qed

lemma frame_ok_cong:
  "others fd os1 = others fd os \<Longrightarrow> nodes os1 = nodes os \<Longrightarrow> frame_ok fd os1 r = frame_ok fd os r"
  by (cases "fst r") (simp_all add: frame_ok_def)

lemma loop_frame:
  assumes "scanMk6_loop L fd s = Some r" and "0 \<le> fd"
  shows "frame_ok fd (snd (snd s)) r"
proof -
  have "0 \<le> fd \<longrightarrow> frame_ok fd (snd (snd s)) r"
  proof (rule scanMk6_loop.raw_induct
           [where P = "\<lambda>L fd s r. 0 \<le> fd \<longrightarrow> frame_ok fd (snd (snd s)) r", OF _ assms(1)])
    fix loop L fd s y
    assume IH: "\<And>L fd s y. loop L fd s = Some y \<Longrightarrow> 0 \<le> fd \<longrightarrow> frame_ok fd (snd (snd s)) y"
      and step: "(case scanMk6_body L fd s of Continue s1 \<Rightarrow> loop L fd s1 | Break r \<Rightarrow> Some r) = Some y"
    show "0 \<le> fd \<longrightarrow> frame_ok fd (snd (snd s)) y"
    proof
      assume fd: "0 \<le> fd"
      obtain fpos rv os where s: "s = (fpos, rv, os)" by (cases s) auto
      show "frame_ok fd (snd (snd s)) y"
      proof (cases "scanMk6_body L fd (fpos, rv, os)")
        case (Continue s1)
        obtain fpos1 rv1 os1 where s1: "s1 = (fpos1, rv1, os1)" by (cases s1) auto
        from body_others [OF fd, where L = L and fpos = fpos and rv = rv and os = os] Continue s1
        have same: "others fd os1 = others fd os" "nodes os1 = nodes os" by simp_all
        from step s Continue have "loop L fd s1 = Some y" by simp
        from IH [OF this] fd s1 have "frame_ok fd os1 y" by simp
        with frame_ok_cong [OF same] have "frame_ok fd os y" by simp
        with s show ?thesis by simp
      next
        case (Break r)
        with step s have "y = r" by simp
        with body_others [OF fd, where L = L and fpos = fpos and rv = rv and os = os] Break s show ?thesis by simp
      qed
    qed
  qed
  with assms(2) show ?thesis by simp
qed

lemma file_frame:
  assumes "scanMk6RecordingFile L file rv os = Some (Throw (vbs_except a), os1)"
  shows "fds os1 = fds os \<and> nodes os1 = nodes os"
proof -
  obtain fd os0 where op: "os_open file os = (fd, os0)"
    by (cases "os_open file os") auto
  from assms op have fd: "0 \<le> fd"
    by (cases "0 \<le> fd") (simp_all add: scanMk6RecordingFile_def ASSERT2_POS_def)
  from os_open_frame [OF op] fd have o0: "others fd os0 = fds os" "nodes os0 = nodes os"
    by simp_all
  obtain n fh6 os3 where rd: "os_read fd (fh_size L) os0 = (n, fh6, os3)"
    by (cases "os_read fd (fh_size L) os0") auto
  have o3: "others fd os3 = fds os" "nodes os3 = nodes os"
    using others_read [of fd "fh_size L" os0] nodes_read [of fd "fh_size L" os0] rd o0 by simp_all
  from assms op rd fd have "scanMk6_loop L fd (int (fh_size L), rv, os3) = Some (Throw (vbs_except a), os1)"
    by (simp add: scanMk6RecordingFile_def ASSERT2_POS_def split: if_splits)
  from loop_frame [OF this fd] o3 show ?thesis
    by (simp add: frame_ok_def)
qed

lemma body_bogus:
  assumes "os_read fd (wb_size L) os = (int (wb_size L), wbh, os1)"
    and "sint (blocknum L wbh) < 0 \<or> sint (wbh_wb_size L wbh) \<le> 0"
  shows "scanMk6_body L fd (fpos, rv, os)
           = Break (Throw (vbs_except found_bogus_stuff_in_write_block_header), os_close fd os1)"
proof -
  define valid where "valid \<longleftrightarrow> 0 \<le> sint (blocknum L wbh) \<and> 0 < sint (wbh_wb_size L wbh)"
  from assms(2) have "\<not> valid"
    by (auto simp: valid_def)
  with assms(1) show ?thesis
    by (simp add: scanMk6_body.simps EZASSERT2_def valid_def [symmetric])
qed

lemma scan_walk:
  assumes wb: "0 < wb_size L" and fd: "0 < fd"
  shows "fd_lookup fd os = Some (bytes, fpos) \<Longrightarrow> fd \<notin> set (map fst (dirfds os)) \<Longrightarrow> 0 \<le> fpos \<Longrightarrow>
         \<exists>res os1. scanMk6_loop L fd (fpos, rv, os) = Some (res, os1)
           \<and> (\<forall>rv1. res = Return rv1 \<longrightarrow>
                 set rv1 = set rv \<union> (\<lambda>(n, sz, pos). filechunk_type_mk6 n pos sz fd)
                                       ` set (block_walk L bytes fpos))"
proof (induction "nat (int (length bytes) + 1 - fpos)" arbitrary: fpos rv os rule: less_induct)
  case less
  note open_fd = less.prems(1) and nodir = less.prems(2) and nonneg = less.prems(3)
  define hdr where "hdr = take (wb_size L) (drop (nat fpos) bytes)"
  show ?case
  proof (cases "fpos + int (wb_size L) \<le> int (length bytes)")
    case False
    with nonneg wb have short: "length hdr \<noteq> wb_size L"
      by (auto simp: hdr_def)
    obtain os0 where "os_read fd (wb_size L) os = (int (length hdr), hdr, os0)"
      using os_read_open [OF open_fd nodir, of "wb_size L"] unfolding hdr_def by blast
    with short have "\<exists>os1. scanMk6_body L fd (fpos, rv, os) = Break (Return rv, os1)"
      by (simp add: scanMk6_body.simps)
    then obtain os1 where b: "scanMk6_body L fd (fpos, rv, os) = Break (Return rv, os1)"
      by blast
    have "scanMk6_loop L fd (fpos, rv, os) = Some (Return rv, os1)"
      by (subst scanMk6_loop.simps) (simp add: b)
    moreover from False have "block_walk L bytes fpos = []"
      by (simp add: block_walk.simps)
    ultimately show ?thesis by simp
  next
    case True
    with nonneg have len: "length hdr = wb_size L"
      by (auto simp: hdr_def)
    define os1 where "os1 = set_offset fd (fpos + int (wb_size L)) os"
    have rd: "os_read fd (wb_size L) os = (int (wb_size L), hdr, os1)"
      using os_read_open [OF open_fd nodir, of "wb_size L"] len by (simp add: hdr_def os1_def)
    have open1: "fd_lookup fd os1 = Some (bytes, fpos + int (wb_size L))"
      using fd_lookup_set_offset [OF open_fd] by (simp add: os1_def)
    define valid where "valid \<longleftrightarrow> 0 \<le> sint (blocknum L hdr) \<and> 0 < sint (wbh_wb_size L hdr)"
    show ?thesis
    proof (cases valid)
      case False
      with rd have "\<exists>x os2. scanMk6_body L fd (fpos, rv, os) = Break (Throw x, os2)"
        by (simp add: scanMk6_body.simps EZASSERT2_def valid_def [symmetric])
      then obtain x os2 where b: "scanMk6_body L fd (fpos, rv, os) = Break (Throw x, os2)"
        by blast
      have "scanMk6_loop L fd (fpos, rv, os) = Some (Throw x, os2)"
        by (subst scanMk6_loop.simps) (simp add: b)
      then show ?thesis by simp
    next
      case True
      then have ok: "0 \<le> sint (blocknum L hdr)" "0 < sint (wbh_wb_size L hdr)"
        by (simp_all add: valid_def)
      define tmp where "tmp = filechunk_type_mk6 (unat (blocknum L hdr)) (fpos + int (wb_size L))
                                (sint (wbh_wb_size L hdr) - int (wb_size L)) fd"
      obtain rv1 ins where i: "filechunks_insert tmp rv = (rv1, ins)"
        by (cases "filechunks_insert tmp rv") auto
      have dt: "filechunk_type_dtor tmp os1 = os1"
        using dtor_mk6_noop [OF fd] by (simp add: tmp_def)
      show ?thesis
      proof (cases ins)
        case False
        with rd \<open>valid\<close> i dt have "\<exists>x os2. scanMk6_body L fd (fpos, rv, os) = Break (Throw x, os2)"
          by (simp add: scanMk6_body.simps EZASSERT2_def Let_def tmp_def [symmetric] valid_def [symmetric])
        then obtain x os2 where b: "scanMk6_body L fd (fpos, rv, os) = Break (Throw x, os2)"
          by blast
        have "scanMk6_loop L fd (fpos, rv, os) = Some (Throw x, os2)"
          by (subst scanMk6_loop.simps) (simp add: b)
        then show ?thesis by simp
      next
        case True
        define fpos2 where "fpos2 = fpos + sint (wbh_wb_size L hdr)"
        define os2 where "os2 = set_offset fd fpos2 os1"
        have pos2: "0 \<le> fpos2" "fpos < fpos2"
          using ok nonneg by (simp_all add: fpos2_def)
        have ls: "os_lseek_set fd fpos2 os1 = (fpos2, os2)"
          using os_lseek_open [OF open1 pos2(1)] by (simp add: os2_def)
        have open2: "fd_lookup fd os2 = Some (bytes, fpos2)"
          using fd_lookup_set_offset [OF open1] by (simp add: os2_def)
        have nodir2: "fd \<notin> set (map fst (dirfds os2))"
          using nodir by (simp add: os2_def os1_def)
        have body: "scanMk6_body L fd (fpos, rv, os) = Continue (fpos2, rv1, os2)"
          using rd \<open>valid\<close> i dt True ls pos2
          by (simp add: scanMk6_body.simps EZASSERT2_def Let_def tmp_def [symmetric]
                valid_def [symmetric] fpos2_def [symmetric])
        have "nat (int (length bytes) + 1 - fpos2) < nat (int (length bytes) + 1 - fpos)"
          using pos2 \<open>fpos + int (wb_size L) \<le> int (length bytes)\<close> by simp
        from less.hyps [OF this open2 nodir2 pos2(1), of rv1]
        obtain res os3 where
          rec: "scanMk6_loop L fd (fpos2, rv1, os2) = Some (res, os3)"
          and ch: "\<forall>rv2. res = Return rv2 \<longrightarrow>
                     set rv2 = set rv1 \<union> (\<lambda>(n, sz, pos). filechunk_type_mk6 n pos sz fd)
                                          ` set (block_walk L bytes fpos2)"
          by blast
        have loop: "scanMk6_loop L fd (fpos, rv, os) = Some (res, os3)"
          by (subst scanMk6_loop.simps) (simp add: body rec)
        have set1: "set rv1 = insert tmp (set rv)"
          using insert_set [of tmp rv] i True copy_mk6 [OF fd] by (simp add: tmp_def)
        have walk: "block_walk L bytes fpos =
                      (nat (sint (blocknum L hdr)), sint (wbh_wb_size L hdr) - int (wb_size L),
                       fpos + int (wb_size L)) # block_walk L bytes fpos2"
          using ok nonneg \<open>fpos + int (wb_size L) \<le> int (length bytes)\<close>
          by (subst block_walk.simps) (simp add: Let_def hdr_def fpos2_def)
        have tmp: "tmp = filechunk_type_mk6 (nat (sint (blocknum L hdr))) (fpos + int (wb_size L))
                           (sint (wbh_wb_size L hdr) - int (wb_size L)) fd"
          using ok unat_sint [of "blocknum L hdr"] by (simp add: tmp_def)
        from ch set1 walk tmp loop show ?thesis
          by auto
      qed
    qed
  qed
qed

lemma scanMk6RecordingFile_walk:
  assumes "nodes os path = Some (Regular bytes)"
    and "0 \<in> fst ` set (fds os)"
    and "fst ` set (dirfds os) \<subseteq> fst ` set (fds os)"
    and "0 < wb_size L"
    and "fh_size L \<le> length bytes"
    and "sync_word L (take (fh_size L) bytes) = MARK6_SG_SYNC_WORD L"
    and "version L (take (fh_size L) bytes) = 2"
  shows "\<exists>res os1. scanMk6RecordingFile L path rv os = Some (res, os1)
           \<and> (\<forall>rv1. res = Return rv1 \<longrightarrow>
                 set rv1 = set rv \<union>
                   (\<lambda>(n, sz, pos). filechunk_type_mk6 n pos sz (lowest_free (map fst (fds os))))
                     ` set (block_walk L bytes (int (fh_size L))))"
proof -
  define fd where "fd = lowest_free (map fst (fds os))"
  define os0 where "os0 = os\<lparr>fds := fds os @ [(fd, bytes, 0)]\<rparr>"
  have fresh: "fd \<notin> fst ` set (fds os)" and "0 \<le> fd"
    using lowest_free_nonneg [of "map fst (fds os)"] lowest_free_fresh [of "map fst (fds os)"]
    by (simp_all add: fd_def)
  with assms(2) have fd: "0 < fd"
    by (cases "fd = 0") auto
  from fresh assms(3) have nodir: "fd \<notin> set (map fst (dirfds os0))"
    by (auto simp: os0_def)
  have op: "os_open path os = (fd, os0)"
    using assms(1) by (simp add: os_open_def fd_def os0_def Let_def)
  have open0: "fd_lookup fd os0 = Some (bytes, 0)"
    using map_of_fresh [OF fresh] by (simp add: fd_lookup_def os0_def)
  define os3 where "os3 = set_offset fd (int (fh_size L)) os0"
  have rd: "os_read fd (fh_size L) os0 = (int (fh_size L), take (fh_size L) bytes, os3)"
    using os_read_open [OF open0 nodir, of "fh_size L"] assms(5) by (simp add: os3_def)
  have open3: "fd_lookup fd os3 = Some (bytes, int (fh_size L))"
    using fd_lookup_set_offset [OF open0] by (simp add: os3_def)
  from nodir have nodir3: "fd \<notin> set (map fst (dirfds os3))"
    by (simp add: os3_def)
  have "scanMk6RecordingFile L path rv os = scanMk6_loop L fd (int (fh_size L), rv, os3)"
    using op rd fd assms(6,7) by (simp add: scanMk6RecordingFile_def ASSERT2_POS_def)
  with scan_walk [OF assms(4) fd open3 nodir3, of rv] show ?thesis
    by (simp add: fd_def)
qed

lemma body_sorted:
  assumes "numbered rv"
  shows "case scanMk6_body L fd (fpos, rv, os) of
           Continue (fpos1, rv1, os1) \<Rightarrow> numbered rv1
         | Break (Return rv1, os1) \<Rightarrow> numbered rv1
         | Break (Fail e, os1) \<Rightarrow> True
         | Break (Throw x, os1) \<Rightarrow> True"
proof -
  obtain n wbh os1 where r: "os_read fd (wb_size L) os = (n, wbh, os1)"
    by (cases "os_read fd (wb_size L) os") auto
  define tmp where "tmp = filechunk_type_mk6 (unat (blocknum L wbh)) (fpos + int (wb_size L))
                              (sint (wbh_wb_size L wbh) - int (wb_size L)) fd"
  obtain rv1 ins where i: "filechunks_insert tmp rv = (rv1, ins)"
    by (cases "filechunks_insert tmp rv") auto
  from insert_sorted [OF assms, of tmp] i have s1: "numbered rv1" by simp
  define os2 where "os2 = filechunk_type_dtor tmp os1"
  define p2 where "p2 = fpos + int (wb_size L) + (sint (wbh_wb_size L wbh) - int (wb_size L))"
  obtain r4 os4 where l: "os_lseek_set fd p2 os2 = (r4, os4)"
    by (cases "os_lseek_set fd p2 os2") auto
  show ?thesis
    using r i l s1 assms
    by (simp add: scanMk6_body.simps EZASSERT2_def Let_def tmp_def [symmetric] os2_def [symmetric]
          p2_def [symmetric])
qed

lemma loop_sorted:
  assumes "scanMk6_loop L fd s = Some (Return rv1, os1)" and "numbered (fst (snd s))"
  shows "numbered rv1"
proof -
  have "numbered (fst (snd s)) \<longrightarrow> (case fst (Return rv1, os1) of Return rv2 \<Rightarrow> numbered rv2 | _ \<Rightarrow> True)"
  proof (rule scanMk6_loop.raw_induct
           [where P = "\<lambda>L fd s r. numbered (fst (snd s)) \<longrightarrow>
                         (case fst r of Return rv2 \<Rightarrow> numbered rv2 | _ \<Rightarrow> True)", OF _ assms(1)])
    fix loop L fd s y
    assume IH: "\<And>L fd s y. loop L fd s = Some y \<Longrightarrow>
                  numbered (fst (snd s)) \<longrightarrow> (case fst y of Return rv2 \<Rightarrow> numbered rv2 | _ \<Rightarrow> True)"
      and step: "(case scanMk6_body L fd s of Continue s1 \<Rightarrow> loop L fd s1 | Break r \<Rightarrow> Some r) = Some y"
    show "numbered (fst (snd s)) \<longrightarrow> (case fst y of Return rv2 \<Rightarrow> numbered rv2 | _ \<Rightarrow> True)"
    proof
      assume srt: "numbered (fst (snd s))"
      obtain fpos rv os where s: "s = (fpos, rv, os)" by (cases s) auto
      with srt have rv: "numbered rv" by simp
      show "case fst y of Return rv2 \<Rightarrow> numbered rv2 | _ \<Rightarrow> True"
      proof (cases "scanMk6_body L fd (fpos, rv, os)")
        case (Continue s1)
        obtain fpos1 rv1 os1 where s1: "s1 = (fpos1, rv1, os1)" by (cases s1) auto
        from body_sorted [OF rv, where L = L and fd = fd and fpos = fpos and os = os] Continue s1
        have "numbered rv1" by simp
        moreover from step s Continue have "loop L fd s1 = Some y" by simp
        ultimately show ?thesis using IH [of L fd s1 y] s1 by simp
      next
        case (Break r)
        with step s have "y = r" by simp
        with body_sorted [OF rv, where L = L and fd = fd and fpos = fpos and os = os] Break
        show ?thesis by (cases r; cases "fst r") auto
      qed
    qed
  qed
  with assms(2) show ?thesis by simp
qed

lemma scanMk6RecordingFile_sorted:
  assumes "scanMk6RecordingFile L file rv os = Some (Return rv1, os1)" and "numbered rv"
  shows "numbered rv1"
proof -
  obtain fd os0 where op: "os_open file os = (fd, os0)"
    by (cases "os_open file os") auto
  obtain n fh6 os3 where rd: "os_read fd (fh_size L) os0 = (n, fh6, os3)"
    by (cases "os_read fd (fh_size L) os0") auto
  from assms(1) op rd
  have "rv1 = rv \<or> scanMk6_loop L fd (int (fh_size L), rv, os3) = Some (Return rv1, os1)"
    by (auto simp: scanMk6RecordingFile_def ASSERT2_POS_def split: if_splits)
  with assms(2) loop_sorted [of L fd "(int (fh_size L), rv, os3)" rv1 os1] show ?thesis
    by auto
qed

lemma merge_chunks_sorted:
  "numbered fcs \<Longrightarrow> numbered (fst (merge_chunks file lcl fcs lg))"
proof (induction lcl arbitrary: fcs lg)
  case Nil
  then show ?case by simp
next
  case (Cons c lcl)
  from insert_sorted [OF Cons.prems, of c] Cons.IH show ?case
    by (simp add: case_prod_beta)
qed

lemma thrd_sorted:
  assumes "scanMk6RecordingMountpoint_thrd L t fcs lg os = Some (Return (t1, fcs1, lg1), os1)"
    and "numbered fcs"
  shows "numbered fcs1"
proof (cases t)
  case (Created recname mp)
  with assms show ?thesis
    by (auto simp: Let_def split: option.splits node.splits prod.splits result.splits)
next
  case (Scanned path lcl)
  with assms merge_chunks_sorted [OF assms(2), of path lcl lg] show ?thesis
    by (auto simp: case_prod_beta)
next
  case Finished
  with assms show ?thesis by simp
qed

lemma run_threads_sorted:
  assumes "run_threads L s = Some r" and "numbered (fst (snd s))"
  shows "numbered (fst (fst r))"
proof -
  have "numbered (fst (snd s)) \<longrightarrow> numbered (fst (fst r))"
  proof (rule run_threads.raw_induct
           [where P = "\<lambda>L s r. numbered (fst (snd s)) \<longrightarrow> numbered (fst (fst r))", OF _ assms(1)])
    fix run L s y
    assume IH: "\<And>L s y. run L s = Some y \<Longrightarrow> numbered (fst (snd s)) \<longrightarrow> numbered (fst (fst y))"
      and step: "(case s of
                    (ts, fcs, lg, os) \<Rightarrow>
                      if runnable ts = [] then Some ((fcs, lg), os)
                      else (case pick ts os of
                              (i, os0) \<Rightarrow>
                                (case scanMk6RecordingMountpoint_thrd L (ts ! i) fcs lg os0 of
                                   None \<Rightarrow> None
                                 | Some (Return (t, fcs1, lg1), os1) \<Rightarrow> run L (ts[i := t], fcs1, lg1, os1)
                                 | Some (Fail e, os1) \<Rightarrow> None
                                 | Some (Throw x, os1) \<Rightarrow> None))) = Some y"
    show "numbered (fst (snd s)) \<longrightarrow> numbered (fst (fst y))"
    proof
      assume srt: "numbered (fst (snd s))"
      obtain ts fcs lg os where s: "s = (ts, fcs, lg, os)" by (cases s) auto
      show "numbered (fst (fst y))"
      proof (cases "runnable ts = []")
        case True
        with step s srt show ?thesis by auto
      next
        case False
        obtain i os0 where p: "pick ts os = (i, os0)" by (cases "pick ts os") auto
        from step s False p obtain t fcs2 lg2 os2 where
          st: "scanMk6RecordingMountpoint_thrd L (ts ! i) fcs lg os0 = Some (Return (t, fcs2, lg2), os2)"
          and rest: "run L (ts[i := t], fcs2, lg2, os2) = Some y"
          by (auto split: option.splits prod.splits result.splits)
        from thrd_sorted [OF st] srt s have "numbered fcs2" by simp
        with IH [OF rest] show ?thesis by simp
      qed
    qed
  qed
  with assms(2) show ?thesis by simp
qed

lemma scanMk6Recording_sorted:
  "scanMk6Recording L recname mps fcs lg os = Some ((fcs1, lg1), os1) \<Longrightarrow> numbered fcs \<Longrightarrow>
   numbered fcs1"
  using run_threads_sorted [of L "(map (Created recname) mps, fcs, lg, os)" "((fcs1, lg1), os1)"]
  by (simp add: scanMk6Recording_def)








lemma mk6_open_Return:
  assumes "mk6_open L recname rootdirs T os = Some (Return h, lg, T1, os1)"
  obtains r rs dirs chunks where
    "recname = Some (r # rs)" "rootdirs = Some dirs"
    "scanMk6Recording L (r # rs) (direntries_of dirs) [] [] os = Some ((chunks, lg), os1)"
    "chunks \<noteq> []" "h = new_fd T"
    "T1 = (h, openfile_type_copy (openfile_type_ctor chunks)) # T"
  using assms unfolding mk6_open_def
  by (auto simp: Let_def new_fd_front
           split: option.splits list.splits prod.splits result.splits if_splits)

subsection \<open>Evaluating the examples\<close>

lemmas os_defs = os_open_def os_close_def os_read_def os_lseek_set_def os_lseek_end_def
  fd_lookup_def set_offset_def lowest_free_def

lemmas chunk_defs = filechunk_type_path_def filechunk_type_mk6_def filechunk_type_copy_def
  open_chunk_def close_chunk_def close_chunk_at_def filechunk_type_dtor_def
  invalidFileDescriptor_def INT_MAX_def find_last_of_def strtoul10_def isdigit_def isspace_def

lemmas scan_defs = scanRecordingMountpoint_def scanRecordingDirectory_def dir_filter_def
  direntries_of_def isRecordingChunk_def escape_def alphanum_str_def backslash_def
  EZASSERT2_def ASSERT2_POS_def

lemmas eval_defs = os_defs chunk_defs scan_defs openfile_type_ctor_def openfile_type_copy_def
  Let_def new_fd_def openedfiles_assign_def openedfiles_erase_def off_t_of_size_t_def
  SEEK_SET_def SEEK_CUR_def SEEK_END_def literal_rx_def word_char_def le32_def mark6_v2_def

lemmas rec_B_defs = os_B_def rec_B_def chunk_0_def chunk_5_def

lemma open_rec_B:
  "vbs_open literal_rx (Some ''r'') (Some [''/d'']) T os_B
     = (Return (new_fd T), openedfiles_insert (new_fd T) rec_B T, os_B)"
  by (simp add: vbs_open_def os_B_def rec_B_def chunk_0_def chunk_5_def literal_rx_def word_char_def
      os_defs chunk_defs scan_defs openfile_type_ctor_def openfile_type_copy_def Let_def)

lemmas mk6_defs = mk6_open_def scanMk6Recording_def run_threads.simps runnable_def pick_def
  scanMk6RecordingFile_def scanMk6_loop.simps scanMk6_body.simps
  file_D_def file_T_def file_X_def os_D_def std_fds_def


lemma read_rec_B:
  "vbs_read INT_MAX 4096 10 [(INT_MAX, rec_B)] os_B
     = Some (Return 10, [65, 66, 67, 68, 69, 70, 71, 72, 73, 74],
             [(INT_MAX, rec_B\<lparr>filePointer := 10, fileChunks := [chunk_0\<lparr>chunkFd := 0\<rparr>, chunk_5]\<rparr>)],
             os_B\<lparr>fds := [(0, [65, 66, 67, 68, 69, 70, 71, 72, 73, 74], 10)]\<rparr>)"
  by (simp add: vbs_read_def vbs_read_loop.simps vbs_read_body.simps rec_B_defs eval_defs)

lemma open_rec_T:
  "mk6_open mark6_v2 (Some ''r'') (Some [''/m3'']) [] os_D
     = Some (Return INT_MAX, [], [(INT_MAX, rec_T)], os_D\<lparr>fds := std_fds @ [(3, file_T, 36)]\<rparr>)"
  by (simp add: mk6_defs rec_T_def eval_defs)

lemma read_rec_T_first:
  "vbs_read_body (8, rec_T, [], os_D\<lparr>fds := std_fds @ [(3, file_T, 36)]\<rparr>)
     = Continue (4, rec_T\<lparr>filePointer := 4\<rparr>, [65, 65, 65, 65], os_D\<lparr>fds := std_fds @ [(3, file_T, 32)]\<rparr>)"
  by (simp add: vbs_read_body.simps mk6_defs rec_T_def eval_defs)

lemma read_rec_T_again:
  "vbs_read_body (4, rec_T\<lparr>filePointer := 4\<rparr>, [65, 65, 65, 65], os_D\<lparr>fds := std_fds @ [(3, file_T, 32)]\<rparr>)
     = Continue (4, rec_T\<lparr>filePointer := 4\<rparr>, [65, 65, 65, 65], os_D\<lparr>fds := std_fds @ [(3, file_T, 32)]\<rparr>)"
  by (simp add: vbs_read_body.simps mk6_defs rec_T_def eval_defs)

lemma scan_file_D:
  "scanMk6RecordingFile mark6_v2 ''/m1/r'' [] os_D
     = Some (Return [filechunk_type_mk6 0 28 8 3, filechunk_type_mk6 1 44 4 3],
             os_D\<lparr>fds := std_fds @ [(3, file_D, 48)]\<rparr>)"
  by (simp add: mk6_defs eval_defs)

lemma walk_file_D: "block_walk mark6_v2 file_D 20 = [(0, 8, 28), (1, 4, 44)]"
  by (simp add: block_walk.simps mk6_defs eval_defs)

lemma scan_file_D0:
  "scanMk6RecordingFile mark6_v2 ''/m1/r'' [] (os_D\<lparr>fds := []\<rparr>)
     = Some (Return [\<lparr>pathToChunk = [], chunkSize = 8, chunkPos = 28,
                      chunkFd = invalidFileDescriptor, chunkOffset = 0, chunkNumber = 0\<rparr>],
             os_D\<lparr>fds := []\<rparr>)"
  by (simp add: mk6_defs eval_defs)

lemma open_rec_F:
  "mk6_open mark6_v2 (Some ''r'') (Some [''/m1'']) [] (os_D\<lparr>fds := []\<rparr>)
     = Some (Return INT_MAX, [], [(INT_MAX, rec_F)], os_D\<lparr>fds := []\<rparr>)"
  by (simp add: mk6_defs rec_F_def eval_defs)

lemma read_rec_F:
  "vbs_read INT_MAX 4096 8 [(INT_MAX, rec_F)] (os_D\<lparr>fds := []\<rparr>)
     = Some (Return 0, [], [(INT_MAX, rec_F)], os_D\<lparr>fds := []\<rparr>)"
  by (simp add: vbs_read_def vbs_read_loop.simps vbs_read_body.simps rec_F_def mk6_defs eval_defs)









lemma scan_file_X:
  "scanMk6RecordingFile mark6_v2 ''/m4/r'' [] os_D
     = Some (Throw (vbs_except found_bogus_stuff_in_write_block_header), os_D)"
  by (simp add: mk6_defs eval_defs)


section \<open>The claims\<close>

subsection \<open>C1: the handle a successful open returns\<close>

text \<open>
  C1, as amended. A successful \<^verbatim>\<open>vbs_open\<close> or \<^verbatim>\<open>mk6_open\<close> returns \<open>INT_MAX\<close>
  (2147483647) when the handle table is empty, and the smallest handle of the table minus one
  otherwise. The handle is below every handle of the table, so it is none of them; the table
  gains exactly that handle and stays in key order. (The table is a \<^verbatim>\<open>std::map\<close>: its keys
  ascend, which is the hypothesis.)
\<close>

theorem new_handle_below_live_handles:
  assumes "sorted_wrt (<) (map fst openedFiles)"
    and "vbs_open rx recname rootdirs openedFiles os = (Return h, openedFiles', os')
       \<or> mk6_open L recname rootdirs openedFiles os = Some (Return h, lg, openedFiles', os')"
  shows "h = (if openedFiles = [] then INT_MAX else Min (fst ` set openedFiles) - 1)
       \<and> (\<forall>k \<in> fst ` set openedFiles. h < k)
       \<and> fst ` set openedFiles' = insert h (fst ` set openedFiles)
       \<and> sorted_wrt (<) (map fst openedFiles')"
proof -
  from assms(2) obtain v where h: "h = new_fd openedFiles" and tbl: "openedFiles' = (h, v) # openedFiles"
    by (auto elim: vbs_open_Return mk6_open_Return)
  show ?thesis
  proof (cases openedFiles)
    case Nil
    with h tbl show ?thesis by (simp add: new_fd_def)
  next
    case (Cons e m)
    with assms(1) have mn: "Min (fst ` set openedFiles) = fst e"
      using sorted_keys_Min [of e m] by simp
    from Cons h have hv: "h = fst e - 1" by (simp add: new_fd_def)
    from Cons assms(1) have "\<forall>k \<in> fst ` set openedFiles. fst e \<le> k" by auto
    with hv have below: "\<forall>k \<in> fst ` set openedFiles. h < k" by auto
    with assms(1) tbl have "sorted_wrt (<) (map fst openedFiles')" by auto
    with Cons mn hv below tbl show ?thesis by auto
  qed
qed

text \<open>With the recording of two chunks open already, the next open returns 2147483646.\<close>

theorem new_handle_below_live_handles_witness:
  "sorted_wrt (<) (map fst [(2147483647, rec_B)])
   \<and> vbs_open literal_rx (Some ''r'') (Some [''/d'']) [(2147483647, rec_B)] os_B
       = (Return 2147483646, [(2147483646, rec_B), (2147483647, rec_B)], os_B)
   \<and> 2147483646 = Min (fst ` set [(2147483647 :: int, rec_B)]) - 1
   \<and> (2147483646 :: int) < 2147483647
   \<and> fst ` set [(2147483646 :: int, rec_B), (2147483647, rec_B)]
       = insert 2147483646 (fst ` set [(2147483647, rec_B)])
   \<and> sorted_wrt (<) (map fst [(2147483646 :: int, rec_B), (2147483647, rec_B)])"
  using new_handle_below_live_handles
          [of "[(2147483647, rec_B)]" literal_rx "Some ''r''" "Some [''/d'']"
              os_B 2147483646 "[(2147483646, rec_B), (2147483647, rec_B)]" os_B]
  by (simp add: open_rec_B new_fd_def INT_MAX_def)

text \<open>
  The claim as stated fails. The first handle is 2147483647, which is not negative. And
  handles do not descend across closes: after three opens and the close of the last two
  handles, the table is as it was after the first open, where an open returns 2147483646,
  above the handle 2147483645 minted before.
\<close>

theorem vbs_open_handles_counterexample:
  "vbs_open literal_rx (Some ''r'') (Some [''/d'']) [] os_B
     = (Return 2147483647, [(2147483647, rec_B)], os_B)
   \<and> \<not> (2147483647 < (0 :: int))
   \<and> vbs_open literal_rx (Some ''r'') (Some [''/d'']) [(2147483647, rec_B)] os_B
     = (Return 2147483646, [(2147483646, rec_B), (2147483647, rec_B)], os_B)
   \<and> vbs_open literal_rx (Some ''r'') (Some [''/d'']) [(2147483646, rec_B), (2147483647, rec_B)] os_B
     = (Return 2147483645, [(2147483645, rec_B), (2147483646, rec_B), (2147483647, rec_B)], os_B)
   \<and> vbs_close 2147483645 [(2147483645, rec_B), (2147483646, rec_B), (2147483647, rec_B)] os_B
     = (Return 0, [(2147483646, rec_B), (2147483647, rec_B)], os_B)
   \<and> vbs_close 2147483646 [(2147483646, rec_B), (2147483647, rec_B)] os_B
     = (Return 0, [(2147483647, rec_B)], os_B)
   \<and> (2147483645 :: int) < 2147483646"
  by (simp add: open_rec_B new_fd_def INT_MAX_def)
     (simp add: vbs_close_def openfile_type_dtor_def rec_B_defs eval_defs)

subsection \<open>C2: vbs\_lseek\<close>




subsection \<open>C3: termination of vbs\_read\<close>

text \<open>
  C3 does not hold of the code. When the \<^verbatim>\<open>read\<close> of the underlying file returns 0 (the
  file ends before the chunk does) the loop changes nothing and goes round again: a pass of
  the body that returns to its own state never ends. Here a Mark6 file is cut off four bytes
  into the payload of a block of eight: \<^verbatim>\<open>mk6_open\<close> succeeds with a file of size 8, and
  \<^verbatim>\<open>vbs_read\<close> of 8 bytes serves four and then does not return.
\<close>

theorem vbs_read_truncated_never_returns:
  "mk6_open mark6_v2 (Some ''r'') (Some [''/m3'']) [] os_D
     = Some (Return INT_MAX, [], [(INT_MAX, rec_T)], os_D\<lparr>fds := std_fds @ [(3, file_T, 36)]\<rparr>)
   \<and> vbs_read INT_MAX 4096 8 [(INT_MAX, rec_T)] (os_D\<lparr>fds := std_fds @ [(3, file_T, 36)]\<rparr>) = None"
proof -
  have "vbs_read_loop (8, rec_T, [], os_D\<lparr>fds := std_fds @ [(3, file_T, 36)]\<rparr>)
          = vbs_read_loop (4, rec_T\<lparr>filePointer := 4\<rparr>, [65, 65, 65, 65],
                           os_D\<lparr>fds := std_fds @ [(3, file_T, 32)]\<rparr>)"
    by (subst vbs_read_loop.simps) (simp add: read_rec_T_first)
  also have "\<dots> = None"
    using read_rec_T_again by (rule vbs_read_loop_stuck)
  finally have "vbs_read INT_MAX 4096 8 [(INT_MAX, rec_T)] (os_D\<lparr>fds := std_fds @ [(3, file_T, 36)]\<rparr>) = None"
    by (simp add: vbs_read_def rec_T_def)
  with open_rec_T show ?thesis by simp
qed

subsection \<open>C4: the offsets of an opened file\<close>

text \<open>
  C4. In the file a successful \<^verbatim>\<open>vbs_open\<close> or \<^verbatim>\<open>mk6_open\<close> puts in the handle table,
  the chunks stand in the order of their sequence numbers (each number once, whatever the
  gaps between them); the offset of the first is 0, the offset of every next one is the
  offset of the one before plus its size, and the size of the file is the sum of the sizes of
  its chunks.
\<close>

theorem opened_file_offsets_gapless:
  assumes "vbs_open rx recname rootdirs openedFiles os = (Return h, openedFiles', os')
         \<or> mk6_open L recname rootdirs openedFiles os = Some (Return h, lg, openedFiles', os')"
  shows "\<exists>opf. map_of openedFiles' h = Some opf
           \<and> fileChunks opf \<noteq> []
           \<and> sorted_wrt (<) (map chunkNumber (fileChunks opf))
           \<and> chunkOffset (hd (fileChunks opf)) = 0
           \<and> (\<forall>i. Suc i < length (fileChunks opf) \<longrightarrow>
                 chunkOffset (fileChunks opf ! Suc i)
                   = chunkOffset (fileChunks opf ! i) + chunkSize (fileChunks opf ! i))
           \<and> fileSize opf = sum_list (map chunkSize (fileChunks opf))"
proof -
  from assms obtain chunks where
    ne: "chunks \<noteq> []" and srt: "sorted_wrt (<) (map chunkNumber chunks)"
    and tbl: "openedFiles' = (h, openfile_type_copy (openfile_type_ctor chunks)) # openedFiles"
  proof
    assume "vbs_open rx recname rootdirs openedFiles os = (Return h, openedFiles', os')"
    then show ?thesis
      by (rule vbs_open_Return) (use that scanRecording_sorted in force)
  next
    assume "mk6_open L recname rootdirs openedFiles os = Some (Return h, lg, openedFiles', os')"
    then show ?thesis
      by (rule mk6_open_Return) (use that scanMk6Recording_sorted in force)
  qed
  from ctor_gapless [OF ne srt] tbl show ?thesis by simp
qed

text \<open>The recording with chunks 0 and 5: offsets 0 and 10, size 15.\<close>

theorem opened_file_offsets_gapless_witness:
  "vbs_open literal_rx (Some ''r'') (Some [''/d'']) [] os_B = (Return INT_MAX, [(INT_MAX, rec_B)], os_B)
   \<and> map_of [(INT_MAX, rec_B)] INT_MAX = Some rec_B
   \<and> fileChunks rec_B = [chunk_0, chunk_5]
   \<and> map chunkNumber (fileChunks rec_B) = [0, 5]
   \<and> chunkOffset chunk_0 = 0
   \<and> chunkOffset chunk_5 = chunkOffset chunk_0 + chunkSize chunk_0
   \<and> fileSize rec_B = chunkSize chunk_0 + chunkSize chunk_5"
  using opened_file_offsets_gapless
          [of literal_rx "Some ''r''" "Some [''/d'']" "[]" os_B INT_MAX "[(INT_MAX, rec_B)]" os_B]
  by (simp add: open_rec_B new_fd_def) (simp add: rec_B_def chunk_0_def chunk_5_def)

subsection \<open>C5: the blocks of a Mark6 file\<close>

text \<open>
  C5 does not hold of the code when the file is opened on descriptor 0. A Mark6 chunk holds
  the negated descriptor of its file, a negative number that tells it the descriptor is not
  its own; the negation of 0 is 0, a descriptor of its own, which the temporary chunk closes
  when it is destroyed after the insert. The \<^verbatim>\<open>lseek\<close> to the next block header then fails
  and the scan ends. Of the file of two blocks, scanned with no descriptor in use, only
  block 0 is found, with no descriptor to read it from, and the header at 36, the next of
  the specification's walk, is not read; no descriptor is left open. With descriptors 0, 1
  and 2 in use the same file gives both chunks. \<^verbatim>\<open>mk6_open\<close> makes a recording of 8
  bytes of the file (it has 12), and a read of it returns no byte.
\<close>

theorem scanMk6RecordingFile_stops_on_descriptor_0:
  "nodes os_D ''/m1/r'' = Some (Regular file_D)
   \<and> block_walk mark6_v2 file_D (int (fh_size mark6_v2)) = [(0, 8, 28), (1, 4, 44)]
   \<and> scanMk6RecordingFile mark6_v2 ''/m1/r'' [] (os_D\<lparr>fds := []\<rparr>)
       = Some (Return [\<lparr>pathToChunk = [], chunkSize = 8, chunkPos = 28,
                        chunkFd = invalidFileDescriptor, chunkOffset = 0, chunkNumber = 0\<rparr>],
               os_D\<lparr>fds := []\<rparr>)
   \<and> scanMk6RecordingFile mark6_v2 ''/m1/r'' [] os_D
       = Some (Return [\<lparr>pathToChunk = [], chunkSize = 8, chunkPos = 28,
                        chunkFd = - 3, chunkOffset = 0, chunkNumber = 0\<rparr>,
                       \<lparr>pathToChunk = [], chunkSize = 4, chunkPos = 44,
                        chunkFd = - 3, chunkOffset = 0, chunkNumber = 1\<rparr>],
               os_D\<lparr>fds := std_fds @ [(3, file_D, 48)]\<rparr>)
   \<and> mk6_open mark6_v2 (Some ''r'') (Some [''/m1'']) [] (os_D\<lparr>fds := []\<rparr>)
       = Some (Return INT_MAX, [], [(INT_MAX, rec_F)], os_D\<lparr>fds := []\<rparr>)
   \<and> fileSize rec_F = 8
   \<and> vbs_read INT_MAX 4096 8 [(INT_MAX, rec_F)] (os_D\<lparr>fds := []\<rparr>)
       = Some (Return 0, [], [(INT_MAX, rec_F)], os_D\<lparr>fds := []\<rparr>)"
proof -
  have "nodes os_D ''/m1/r'' = Some (Regular file_D)"
    by (simp add: os_D_def)
  moreover have "block_walk mark6_v2 file_D (int (fh_size mark6_v2)) = [(0, 8, 28), (1, 4, 44)]"
    using walk_file_D by (simp add: mark6_v2_def)
  moreover note scan_file_D0
  moreover have "scanMk6RecordingFile mark6_v2 ''/m1/r'' [] os_D
       = Some (Return [\<lparr>pathToChunk = [], chunkSize = 8, chunkPos = 28,
                        chunkFd = - 3, chunkOffset = 0, chunkNumber = 0\<rparr>,
                       \<lparr>pathToChunk = [], chunkSize = 4, chunkPos = 44,
                        chunkFd = - 3, chunkOffset = 0, chunkNumber = 1\<rparr>],
               os_D\<lparr>fds := std_fds @ [(3, file_D, 48)]\<rparr>)"
    using scan_file_D by (simp add: filechunk_type_mk6_def)
  moreover note open_rec_F
  moreover have "fileSize rec_F = 8"
    by (simp add: rec_F_def)
  moreover note read_rec_F
  ultimately show ?thesis by blast
qed

subsection \<open>C6: duplicate sequence numbers\<close>



subsection \<open>C7: the checks of vbs\_read\<close>

text \<open>
  C7. \<^verbatim>\<open>vbs_read\<close> fails with \<open>EBADF\<close> when the handle is not in the table, whatever the
  buffer and the count; for a handle of the table it fails with \<open>EFAULT\<close> when the buffer
  is null, whatever the count; with a buffer it returns 0 when the count is 0; and with a
  count it returns 0 when the cursor is past the last chunk. None of these changes anything.
\<close>

theorem vbs_read_checks_in_order:
  "(map_of openedFiles fd = None \<longrightarrow>
      vbs_read fd buf count openedFiles os = Some (Fail EBADF, [], openedFiles, os))
   \<and> (map_of openedFiles fd = Some opf \<longrightarrow>
        (buf = 0 \<longrightarrow> vbs_read fd buf count openedFiles os = Some (Fail EFAULT, [], openedFiles, os))
      \<and> (buf \<noteq> 0 \<and> count = 0 \<longrightarrow>
           vbs_read fd buf count openedFiles os = Some (Return 0, [], openedFiles, os))
      \<and> (buf \<noteq> 0 \<and> count \<noteq> 0 \<and> chunkPtr opf = length (fileChunks opf) \<longrightarrow>
           vbs_read fd buf count openedFiles os = Some (Return 0, [], openedFiles, os)))"
  by (simp add: vbs_read_def)

text \<open>
  An unknown handle with a null buffer and a count of 0 gives \<open>EBADF\<close>; a null buffer with
  a count of 0 gives \<open>EFAULT\<close>.
\<close>

theorem vbs_read_checks_in_order_witness:
  "map_of [(INT_MAX, rec_B)] 5 = None
   \<and> vbs_read 5 0 0 [(INT_MAX, rec_B)] os_B = Some (Fail EBADF, [], [(INT_MAX, rec_B)], os_B)
   \<and> map_of [(INT_MAX, rec_B)] INT_MAX = Some rec_B
   \<and> vbs_read INT_MAX 0 0 [(INT_MAX, rec_B)] os_B = Some (Fail EFAULT, [], [(INT_MAX, rec_B)], os_B)
   \<and> vbs_read INT_MAX 4096 0 [(INT_MAX, rec_B)] os_B = Some (Return 0, [], [(INT_MAX, rec_B)], os_B)
   \<and> map_of [(INT_MAX, rec_B\<lparr>filePointer := 16, chunkPtr := 2\<rparr>)] INT_MAX
       = Some (rec_B\<lparr>filePointer := 16, chunkPtr := 2\<rparr>)
   \<and> chunkPtr (rec_B\<lparr>filePointer := 16, chunkPtr := 2\<rparr>)
       = length (fileChunks (rec_B\<lparr>filePointer := 16, chunkPtr := 2\<rparr>))
   \<and> vbs_read INT_MAX 4096 10 [(INT_MAX, rec_B\<lparr>filePointer := 16, chunkPtr := 2\<rparr>)] os_B
       = Some (Return 0, [], [(INT_MAX, rec_B\<lparr>filePointer := 16, chunkPtr := 2\<rparr>)], os_B)"
  using vbs_read_checks_in_order [of "[(INT_MAX, rec_B)]" 5 0 0 os_B rec_B]
    vbs_read_checks_in_order [of "[(INT_MAX, rec_B)]" INT_MAX 0 0 os_B rec_B]
    vbs_read_checks_in_order [of "[(INT_MAX, rec_B)]" INT_MAX 4096 0 os_B rec_B]
    vbs_read_checks_in_order [of "[(INT_MAX, rec_B\<lparr>filePointer := 16, chunkPtr := 2\<rparr>)]" INT_MAX 4096 10
       os_B "rec_B\<lparr>filePointer := 16, chunkPtr := 2\<rparr>"]
  by (simp add: INT_MAX_def rec_B_def)

subsection \<open>C8: a corrupt block header\<close>

text \<open>
  C8. When the block header read has a negative block number or a block size that is not
  positive, the scan throws \<^verbatim>\<open>vbs_except\<close> (bogus write block header) after closing the
  descriptor of the file; and whenever \<^verbatim>\<open>scanMk6RecordingFile\<close> throws that, the open
  descriptors (and the file system) are what they were before the call: the descriptor it
  opened is closed.
\<close>

theorem corrupt_block_header_closes_file:
  "(os_read fd (wb_size L) os = (int (wb_size L), wbh, os')
      \<and> (sint (blocknum L wbh) < 0 \<or> sint (wbh_wb_size L wbh) \<le> 0) \<longrightarrow>
      scanMk6_loop L fd (fpos, rv, os)
        = Some (Throw (vbs_except found_bogus_stuff_in_write_block_header), os_close fd os')
      \<and> fd \<notin> fst ` set (fds (os_close fd os')))
   \<and> (scanMk6RecordingFile L path rvF osF
        = Some (Throw (vbs_except found_bogus_stuff_in_write_block_header), osF') \<longrightarrow>
      fds osF' = fds osF \<and> nodes osF' = nodes osF)"
proof (intro conjI impI)
  assume a: "os_read fd (wb_size L) os = (int (wb_size L), wbh, os')
      \<and> (sint (blocknum L wbh) < 0 \<or> sint (wbh_wb_size L wbh) \<le> 0)"
  then have "scanMk6_body L fd (fpos, rv, os)
           = Break (Throw (vbs_except found_bogus_stuff_in_write_block_header), os_close fd os')"
    using body_bogus [of fd L os wbh os' fpos rv] by blast
  then show "scanMk6_loop L fd (fpos, rv, os)
        = Some (Throw (vbs_except found_bogus_stuff_in_write_block_header), os_close fd os')"
    by (subst scanMk6_loop.simps) simp
  show "fd \<notin> fst ` set (fds (os_close fd os'))"
    by (auto simp: os_close_def)
next
  assume "scanMk6RecordingFile L path rvF osF
        = Some (Throw (vbs_except found_bogus_stuff_in_write_block_header), osF')"
  then show "fds osF' = fds osF" "nodes osF' = nodes osF"
    using file_frame by blast+
qed

text \<open>
  The file whose second block header holds the number -1: the scan throws at position 36,
  and the descriptors are 0, 1 and 2 again.
\<close>

theorem corrupt_block_header_closes_file_witness:
  "os_read 3 (wb_size mark6_v2) (os_D\<lparr>fds := std_fds @ [(3, file_X, 36)]\<rparr>)
     = (int (wb_size mark6_v2), [0xff, 0xff, 0xff, 0xff, 12, 0, 0, 0], os_D\<lparr>fds := std_fds @ [(3, file_X, 44)]\<rparr>)
   \<and> sint (blocknum mark6_v2 [0xff, 0xff, 0xff, 0xff, 12, 0, 0, 0]) < 0
   \<and> scanMk6_loop mark6_v2 3 (36, [filechunk_type_mk6 0 28 8 3], os_D\<lparr>fds := std_fds @ [(3, file_X, 36)]\<rparr>)
       = Some (Throw (vbs_except found_bogus_stuff_in_write_block_header),
               os_close 3 (os_D\<lparr>fds := std_fds @ [(3, file_X, 44)]\<rparr>))
   \<and> 3 \<notin> fst ` set (fds (os_close 3 (os_D\<lparr>fds := std_fds @ [(3, file_X, 44)]\<rparr>)))
   \<and> scanMk6RecordingFile mark6_v2 ''/m4/r'' [] os_D
       = Some (Throw (vbs_except found_bogus_stuff_in_write_block_header), os_D)
   \<and> fds os_D = std_fds"
  using corrupt_block_header_closes_file
    [where fd = 3 and L = mark6_v2 and os = "os_D\<lparr>fds := std_fds @ [(3, file_X, 36)]\<rparr>"
       and wbh = "[0xff, 0xff, 0xff, 0xff, 12, 0, 0, 0]"
       and os' = "os_D\<lparr>fds := std_fds @ [(3, file_X, 44)]\<rparr>" and fpos = 36
       and rv = "[filechunk_type_mk6 0 28 8 3]"
       and path = "''/m4/r''" and rvF = "[]" and osF = os_D and osF' = os_D]
  by (simp add: scan_file_X) (simp add: mk6_defs eval_defs)

subsection \<open>C9: escape\<close>

text \<open>
  C9. \<^verbatim>\<open>escape(s)\<close> is \<open>s\<close> with a backslash in front of every character outside
  \<^verbatim>\<open>[A-Za-z0-9_]\<close>, all characters kept in order; on a string of such characters only it
  is the identity.
\<close>

theorem escape_backslash_before_non_word:
  "escape s = concat (map (\<lambda>c. if word_char c then [c] else [backslash, c]) s)
   \<and> (list_all word_char s \<longrightarrow> escape s = s)"
  using escape_loop_spec [of "[]" s] escape_spec_word [of s]
  by (simp add: escape_def escape_spec_def)

theorem escape_backslash_before_non_word_witness:
  "list_all word_char ''rec_A9'' \<and> escape ''rec_A9'' = ''rec_A9''
   \<and> escape ''a.b+'' = [CHR ''a'', backslash, CHR ''.'', CHR ''b'', backslash, CHR ''+'']"
  using escape_backslash_before_non_word [of "''rec_A9''"]
    escape_backslash_before_non_word [of "''a.b+''"]
  by (simp add: word_char_def)

subsection \<open>C10: a seek to the current position\<close>

text \<open>
  C10. For an open handle, when the new position \<^verbatim>\<open>vbs_lseek\<close> computes from a valid
  \<open>whence\<close> is not negative and is the current position, the call returns it and changes
  nothing: neither the table (position, cursor, chunks) nor the operating system.
\<close>

theorem vbs_lseek_same_position:
  assumes "map_of openedFiles fd = Some opf"
    and "whence = SEEK_SET \<and> newfp = offset
       \<or> whence = SEEK_CUR \<and> newfp = filePointer opf + offset
       \<or> whence = SEEK_END \<and> newfp = fileSize opf + offset"
    and "0 \<le> newfp" and "newfp = filePointer opf"
  shows "vbs_lseek fd offset whence openedFiles os = (Return newfp, openedFiles, os)"
  using vbs_lseek_stays(2) [OF assms(1,2,3,4)] .

text \<open>
  After a read of the first ten bytes the position is 10 and the cursor is at chunk 0,
  whose interval \<open>[0, 10)\<close> does not hold it. A seek by 0 from the current position
  returns 10 and leaves the cursor there, and descriptor 0 open.
\<close>

theorem vbs_lseek_same_position_witness:
  "vbs_read INT_MAX 4096 10 [(INT_MAX, rec_B)] os_B
     = Some (Return 10, [65, 66, 67, 68, 69, 70, 71, 72, 73, 74],
             [(INT_MAX, rec_B\<lparr>filePointer := 10, fileChunks := [chunk_0\<lparr>chunkFd := 0\<rparr>, chunk_5]\<rparr>)],
             os_B\<lparr>fds := [(0, [65, 66, 67, 68, 69, 70, 71, 72, 73, 74], 10)]\<rparr>)
   \<and> map_of [(INT_MAX, rec_B\<lparr>filePointer := 10, fileChunks := [chunk_0\<lparr>chunkFd := 0\<rparr>, chunk_5]\<rparr>)] INT_MAX
       = Some (rec_B\<lparr>filePointer := 10, fileChunks := [chunk_0\<lparr>chunkFd := 0\<rparr>, chunk_5]\<rparr>)
   \<and> vbs_lseek INT_MAX 0 SEEK_CUR
         [(INT_MAX, rec_B\<lparr>filePointer := 10, fileChunks := [chunk_0\<lparr>chunkFd := 0\<rparr>, chunk_5]\<rparr>)]
         (os_B\<lparr>fds := [(0, [65, 66, 67, 68, 69, 70, 71, 72, 73, 74], 10)]\<rparr>)
       = (Return 10,
          [(INT_MAX, rec_B\<lparr>filePointer := 10, fileChunks := [chunk_0\<lparr>chunkFd := 0\<rparr>, chunk_5]\<rparr>)],
          os_B\<lparr>fds := [(0, [65, 66, 67, 68, 69, 70, 71, 72, 73, 74], 10)]\<rparr>)
   \<and> chunkPtr (rec_B\<lparr>filePointer := 10, fileChunks := [chunk_0\<lparr>chunkFd := 0\<rparr>, chunk_5]\<rparr>) = 0
   \<and> \<not> (chunkOffset chunk_0 \<le> 10 \<and> 10 < chunkOffset chunk_0 + chunkSize chunk_0)
   \<and> (chunkOffset chunk_5 \<le> 10 \<and> 10 < chunkOffset chunk_5 + chunkSize chunk_5)"
  using vbs_lseek_same_position
          [of "[(INT_MAX, rec_B\<lparr>filePointer := 10, fileChunks := [chunk_0\<lparr>chunkFd := 0\<rparr>, chunk_5]\<rparr>)]"
              INT_MAX "rec_B\<lparr>filePointer := 10, fileChunks := [chunk_0\<lparr>chunkFd := 0\<rparr>, chunk_5]\<rparr>"
              SEEK_CUR 10 0 "os_B\<lparr>fds := [(0, [65, 66, 67, 68, 69, 70, 71, 72, 73, 74], 10)]\<rparr>"]
  by (simp add: read_rec_B) (simp add: rec_B_def chunk_0_def chunk_5_def)

end
